theory Spec2Isabelle
  imports Main
begin

section \<open>Strings and numbers of the host language\<close>

text \<open>
  The source is TypeScript. Its strings are modelled as \<^typ>\<open>string\<close>; a character here
  is one of the 256 code units below U+0100, which covers every character the patterns of
  the source name explicitly. A value that may be \<^verbatim>\<open>undefined\<close> is an
  \<^typ>\<open>'a option\<close>.
\<close>

subsection \<open>Character classes of the regular expressions\<close>

datatype cls =
    Lit char  \<comment> \<open>a literal character\<close>
  | Digit     \<comment> \<open>\<^verbatim>\<open>\d\<close>\<close>
  | Word      \<comment> \<open>\<^verbatim>\<open>\w\<close>\<close>
  | Space     \<comment> \<open>\<^verbatim>\<open>\s\<close>\<close>
  | Alnum     \<comment> \<open>\<^verbatim>\<open>[0-9a-zA-Z]\<close>\<close>
  | Dot       \<comment> \<open>\<^verbatim>\<open>.\<close> without the dotAll flag\<close>

definition is_digit :: "char \<Rightarrow> bool" where
  "is_digit c = (c \<in> set ''0123456789'')"

definition is_lower :: "char \<Rightarrow> bool" where
  "is_lower c = (c \<in> set ''abcdefghijklmnopqrstuvwxyz'')"

definition is_upper :: "char \<Rightarrow> bool" where
  "is_upper c = (c \<in> set ''ABCDEFGHIJKLMNOPQRSTUVWXYZ'')"

definition is_alnum :: "char \<Rightarrow> bool" where
  "is_alnum c = (is_digit c \<or> is_lower c \<or> is_upper c)"

definition is_space :: "char \<Rightarrow> bool" where
  \<comment> \<open>tab, line feed, vertical tab, form feed, carriage return, space, no-break space\<close>
  "is_space c = (c \<in> set [CHR 0x09, CHR 0x0A, CHR 0x0B, CHR 0x0C, CHR 0x0D, CHR 0x20, CHR 0xA0])"

definition is_line_terminator :: "char \<Rightarrow> bool" where
  "is_line_terminator c = (c \<in> set [CHR 0x0A, CHR 0x0D])"

fun in_cls :: "cls \<Rightarrow> char \<Rightarrow> bool" where
  "in_cls (Lit a) c = (c = a)"
| "in_cls Digit c = is_digit c"
| "in_cls Word c = (is_alnum c \<or> c = CHR ''_'')"
| "in_cls Space c = is_space c"
| "in_cls Alnum c = is_alnum c"
| "in_cls Dot c = (\<not> is_line_terminator c)"

subsection \<open>A backtracking matcher\<close>

text \<open>
  The patterns of the source are sequences of single characters, greedy quantifiers on a
  character class and capture groups that are not nested. As in the language standard, a
  pattern is matched at the start of a string against a continuation, which receives the
  captures so far and the rest of the string and may fail, making the matcher backtrack.
\<close>

datatype re =
    Cls cls                     \<comment> \<open>one character\<close>
  | Rep cls nat "nat option"    \<comment> \<open>\<^verbatim>\<open>c{lo,hi}\<close>, greedy; no upper bound is \<^verbatim>\<open>c+\<close> or \<^verbatim>\<open>c*\<close>\<close>
  | Cat re re
  | Grp re                      \<comment> \<open>a capture group\<close>

text \<open>A greedy quantifier tries \<open>j\<close> characters, then \<open>j - 1\<close>, down to \<open>lo\<close>.\<close>

fun rep_try :: "string \<Rightarrow> nat \<Rightarrow> nat \<Rightarrow> (string \<Rightarrow> 'a option) \<Rightarrow> 'a option" where
  "rep_try s lo j cont =
     (if j < lo then None
      else case cont (drop j s) of
             Some x \<Rightarrow> Some x
           | None \<Rightarrow> if j = 0 then None else rep_try s lo (j - 1) cont)"

fun re_match ::
    "re \<Rightarrow> string \<Rightarrow> string list \<Rightarrow> (string list \<Rightarrow> string \<Rightarrow> 'a option) \<Rightarrow> 'a option" where
  "re_match (Cls k) s caps cont =
     (case s of [] \<Rightarrow> None | c # cs \<Rightarrow> if in_cls k c then cont caps cs else None)"
| "re_match (Rep k lo hi) s caps cont =
     (let n = length (takeWhile (in_cls k) s);
          mx = (case hi of None \<Rightarrow> n | Some h \<Rightarrow> min n h)
      in rep_try s lo mx (cont caps))"
| "re_match (Cat a b) s caps cont = re_match a s caps (\<lambda>c r. re_match b r c cont)"
| "re_match (Grp a) s caps cont =
     re_match a s caps (\<lambda>c r. cont (c @ [take (length s - length r) s]) r)"

text \<open>The match at the start of a string: its captures and the rest of the string.\<close>

definition match_here :: "re \<Rightarrow> string \<Rightarrow> (string list \<times> string) option" where
  "match_here r s = re_match r s [] (\<lambda>caps rest. Some (caps, rest))"

record match_result =
  index :: nat
  matched :: string
  groups :: "string list"

text \<open>\<^verbatim>\<open>m[n]\<close> on a match result: the whole match for 0, capture group \<open>n\<close> otherwise.\<close>

definition match_at :: "match_result \<Rightarrow> nat \<Rightarrow> string option" where
  "match_at m n =
     (if n = 0 then Some (matched m)
      else if n \<le> length (groups m) then Some (groups m ! (n - 1)) else None)"

text \<open>\<^verbatim>\<open>RegExp.prototype.exec\<close> on a fresh pattern: the leftmost position that matches.\<close>

fun re_search :: "re \<Rightarrow> nat \<Rightarrow> string \<Rightarrow> match_result option" where
  "re_search r i [] =
     (case match_here r [] of
        Some (caps, rest) \<Rightarrow> Some \<lparr>index = i, matched = [], groups = caps\<rparr>
      | None \<Rightarrow> None)"
| "re_search r i (c # cs) =
     (case match_here r (c # cs) of
        Some (caps, rest) \<Rightarrow>
          Some \<lparr>index = i, matched = take (length (c # cs) - length rest) (c # cs), groups = caps\<rparr>
      | None \<Rightarrow> re_search r (Suc i) cs)"

definition re_exec :: "re \<Rightarrow> string \<Rightarrow> match_result option" where
  "re_exec r s = re_search r 0 s"

text \<open>
  \<^verbatim>\<open>String.prototype.replace\<close> with a pattern without the global flag: the first match
  is replaced by what the replacer makes of it, a string without a match is returned as it is.
\<close>

definition replace_re :: "re \<Rightarrow> (match_result \<Rightarrow> string) \<Rightarrow> string \<Rightarrow> string" where
  "replace_re r f s =
     (case re_exec r s of
        None \<Rightarrow> s
      | Some m \<Rightarrow> take (index m) s @ f m @ drop (index m + length (matched m)) s)"

text \<open>
  \<^verbatim>\<open>String.prototype.split\<close> with a separator pattern that has no capture group and
  consumes at least one character, as \<^verbatim>\<open>/,\s/\<close> does. \<open>acc\<close> holds, reversed, the
  characters read since the last separator.
\<close>

fun split_re :: "re \<Rightarrow> string \<Rightarrow> string \<Rightarrow> string list" where
  "split_re r acc [] = [rev acc]"
| "split_re r acc (c # cs) =
     (case match_here r (c # cs) of
        None \<Rightarrow> split_re r (c # acc) cs
      | Some (caps, rest) \<Rightarrow>
          if length rest < length (c # cs) then rev acc # split_re r [] rest
          else split_re r (c # acc) cs)"

subsection \<open>Numbers\<close>

text \<open>
  A number of the host language is a double. The model keeps the integers, the two
  infinities and NaN; fractions are outside it.
\<close>

datatype number = Num int | NaN | PosInf | NegInf

fun truthy :: "number \<Rightarrow> bool" where
  "truthy (Num n) = (n \<noteq> 0)"
| "truthy NaN = False"
| "truthy PosInf = True"
| "truthy NegInf = True"

fun negate :: "number \<Rightarrow> number" where
  "negate (Num n) = Num (- n)"
| "negate NaN = NaN"
| "negate PosInf = NegInf"
| "negate NegInf = PosInf"

fun add_num :: "number \<Rightarrow> number \<Rightarrow> number" where
  "add_num (Num a) (Num b) = Num (a + b)"
| "add_num NaN _ = NaN"
| "add_num _ NaN = NaN"
| "add_num PosInf NegInf = NaN"
| "add_num NegInf PosInf = NaN"
| "add_num PosInf _ = PosInf"
| "add_num NegInf _ = NegInf"
| "add_num _ PosInf = PosInf"
| "add_num _ NegInf = NegInf"

text \<open>\<^verbatim>\<open>x * 1000\<close>\<close>

fun times_1000 :: "number \<Rightarrow> number" where
  "times_1000 (Num n) = Num (n * 1000)"
| "times_1000 x = x"

definition digit_char :: "nat \<Rightarrow> char" where
  "digit_char d = ''0123456789'' ! d"

fun decimal :: "nat \<Rightarrow> string" where
  "decimal n = (if n < 10 then [digit_char n] else decimal (n div 10) @ [digit_char (n mod 10)])"

text \<open>\<^verbatim>\<open>Number.prototype.toString\<close>, in the decimal notation it uses below \<open>10\<^sup>2\<^sup>1\<close>\<close>

fun to_string :: "number \<Rightarrow> string" where
  "to_string (Num n) = (if n < 0 then CHR ''-'' # decimal (nat (- n)) else decimal (nat n))"
| "to_string NaN = ''NaN''"
| "to_string PosInf = ''Infinity''"
| "to_string NegInf = ''-Infinity''"

text \<open>\<^verbatim>\<open>String.prototype.padStart\<close> with a filler of one character\<close>

definition pad_start :: "nat \<Rightarrow> char \<Rightarrow> string \<Rightarrow> string" where
  "pad_start n c s = replicate (n - length s) c @ s"

section \<open>Calendar dates\<close>

text \<open>
  A calendar-date value holds a time value: the milliseconds since the epoch, at most
  \<open>8.64 \<times> 10\<^sup>1\<^sup>5\<close> in magnitude, or NaN, here \<open>None\<close>, for the invalid date. The
  functions below are those of the language standard, on integers.
\<close>

type_synonym date = "int option"

definition ms_per_day :: int where
  "ms_per_day = 86400000"

definition time_clip :: "number \<Rightarrow> date" where
  "time_clip x = (case x of Num t \<Rightarrow> if \<bar>t\<bar> \<le> 8640000000000000 then Some t else None | _ \<Rightarrow> None)"

definition day :: "int \<Rightarrow> int" where
  "day t = t div ms_per_day"

definition time_within_day :: "int \<Rightarrow> int" where
  "time_within_day t = t mod ms_per_day"

definition days_in_year :: "int \<Rightarrow> int" where
  "days_in_year y =
     (if y mod 4 \<noteq> 0 then 365 else if y mod 100 \<noteq> 0 then 366
      else if y mod 400 \<noteq> 0 then 365 else 366)"

definition day_from_year :: "int \<Rightarrow> int" where
  "day_from_year y =
     365 * (y - 1970) + (y - 1969) div 4 - (y - 1901) div 100 + (y - 1601) div 400"

text \<open>
  The year of a day is the largest \<open>y\<close> with \<open>day_from_year y \<le> d\<close>; the search runs
  upwards from 1970 for the days since the epoch and downwards from 1969 for those before.
\<close>

function year_up :: "int \<Rightarrow> int \<Rightarrow> int" where
  "year_up d y = (if day_from_year (y + 1) \<le> d then year_up d (y + 1) else y)"
  by pat_completeness auto
termination
  by (relation "measure (\<lambda>(d, y). nat (d - day_from_year (y + 1) + 1))")
     (auto simp: day_from_year_def)

function year_down :: "int \<Rightarrow> int \<Rightarrow> int" where
  "year_down d y = (if d < day_from_year y then year_down d (y - 1) else y)"
  by pat_completeness auto
termination
  by (relation "measure (\<lambda>(d, y). nat (day_from_year y - d))")
     (auto simp: day_from_year_def)

definition year_from_time :: "int \<Rightarrow> int" where
  "year_from_time t = (if 0 \<le> day t then year_up (day t) 1970 else year_down (day t) 1969)"

definition in_leap_year :: "int \<Rightarrow> int" where
  "in_leap_year t = (if days_in_year (year_from_time t) = 366 then 1 else 0)"

definition day_within_year :: "int \<Rightarrow> int" where
  "day_within_year t = day t - day_from_year (year_from_time t)"

text \<open>The number of days of a year before its month \<open>m\<close>, from 0 for January.\<close>

definition days_before_month :: "int \<Rightarrow> int \<Rightarrow> int" where
  "days_before_month leap m =
     (if m = 0 then 0 else if m = 1 then 31 else if m = 2 then 59 + leap
      else if m = 3 then 90 + leap else if m = 4 then 120 + leap
      else if m = 5 then 151 + leap else if m = 6 then 181 + leap
      else if m = 7 then 212 + leap else if m = 8 then 243 + leap
      else if m = 9 then 273 + leap else if m = 10 then 304 + leap
      else 334 + leap)"

text \<open>The number of days of the month \<open>m\<close> of the year \<open>y\<close>.\<close>

definition days_in_month :: "int \<Rightarrow> int \<Rightarrow> int" where
  "days_in_month y m =
     (if m = 1 then (if days_in_year y = 366 then 29 else 28)
      else if m = 3 \<or> m = 5 \<or> m = 8 \<or> m = 10 then 30 else 31)"

definition month_from_time :: "int \<Rightarrow> int" where
  "month_from_time t =
     (let d = day_within_year t; leap = in_leap_year t in
      if d < 31 then 0 else if d < 59 + leap then 1 else if d < 90 + leap then 2
      else if d < 120 + leap then 3 else if d < 151 + leap then 4
      else if d < 181 + leap then 5 else if d < 212 + leap then 6
      else if d < 243 + leap then 7 else if d < 273 + leap then 8
      else if d < 304 + leap then 9 else if d < 334 + leap then 10 else 11)"

definition date_from_time :: "int \<Rightarrow> int" where
  "date_from_time t =
     day_within_year t - days_before_month (in_leap_year t) (month_from_time t) + 1"

definition hour_from_time :: "int \<Rightarrow> int" where
  "hour_from_time t = (t div 3600000) mod 24"

definition min_from_time :: "int \<Rightarrow> int" where
  "min_from_time t = (t div 60000) mod 60"

definition sec_from_time :: "int \<Rightarrow> int" where
  "sec_from_time t = (t div 1000) mod 60"

text \<open>\<open>make_day\<close> takes any month and day number and carries the overflow.\<close>

definition make_day :: "number \<Rightarrow> number \<Rightarrow> number \<Rightarrow> number" where
  "make_day year month dt =
     (case (year, month, dt) of
        (Num y, Num m, Num d) \<Rightarrow>
          (let ym = y + m div 12; mn = m mod 12;
               leap = (if days_in_year ym = 366 then 1 else 0)
           in Num (day_from_year ym + days_before_month leap mn + d - 1))
      | _ \<Rightarrow> NaN)"

definition make_date :: "number \<Rightarrow> int \<Rightarrow> number" where
  "make_date dy tm = (case dy of Num d \<Rightarrow> Num (d * ms_per_day + tm) | _ \<Rightarrow> NaN)"

subsection \<open>The runtime\<close>

text \<open>
  What the functions take from the runtime they run in: the parser of date strings
  (\<^verbatim>\<open>Date.parse\<close>), the offset of local time from UTC in milliseconds at an instant
  (the second argument tells whether the instant is given in UTC or in local time), the
  abbreviated month names of the \<^verbatim>\<open>en-GB\<close> locale data, the layouts of that locale
  which the source never asks for, and the clock.
\<close>

text \<open>
  Of the formatting options only the three fields that \<open>getFormattedDateString\<close> writes
  are kept; the others (weekday, era, time zone, hour and so on) are taken as absent.
\<close>

record DateTimeFormatOptions =
  day_opt :: "string option"
  month_opt :: "string option"
  year_opt :: "string option"

record runtime =
  date_parse :: "string \<Rightarrow> number"
  local_tza :: "int \<Rightarrow> bool \<Rightarrow> int"
  month_short :: "int \<Rightarrow> string"
  other_layout :: "DateTimeFormatOptions \<Rightarrow> int \<Rightarrow> string"
  now :: int

definition local_time :: "runtime \<Rightarrow> int \<Rightarrow> int" where
  "local_time rt t = t + local_tza rt t True"

definition utc :: "runtime \<Rightarrow> int \<Rightarrow> int" where
  "utc rt t = t - local_tza rt t False"

subsection \<open>Values and the date constructor\<close>

datatype js_value =
    Undefined
  | Null
  | Boolean bool
  | Number number
  | String string
  | DateObj date
  | Object

datatype error = Error string | RangeError | TypeError

text \<open>\<^verbatim>\<open>new Date(value)\<close> for a number, a string or a calendar-date value.\<close>

fun new_Date :: "runtime \<Rightarrow> js_value \<Rightarrow> date" where
  "new_Date rt (Number x) = time_clip x"
| "new_Date rt (String s) = time_clip (date_parse rt s)"
| "new_Date rt (DateObj d) = d"
| "new_Date rt _ = None"

subsection \<open>Getters and setters\<close>

definition getUTCHours :: "date \<Rightarrow> number" where
  "getUTCHours d = (case d of None \<Rightarrow> NaN | Some t \<Rightarrow> Num (hour_from_time t))"

definition getUTCMinutes :: "date \<Rightarrow> number" where
  "getUTCMinutes d = (case d of None \<Rightarrow> NaN | Some t \<Rightarrow> Num (min_from_time t))"

definition getUTCSeconds :: "date \<Rightarrow> number" where
  "getUTCSeconds d = (case d of None \<Rightarrow> NaN | Some t \<Rightarrow> Num (sec_from_time t))"

definition getFullYear :: "runtime \<Rightarrow> date \<Rightarrow> number" where
  "getFullYear rt d = (case d of None \<Rightarrow> NaN | Some t \<Rightarrow> Num (year_from_time (local_time rt t)))"

definition getMonth :: "runtime \<Rightarrow> date \<Rightarrow> number" where
  "getMonth rt d = (case d of None \<Rightarrow> NaN | Some t \<Rightarrow> Num (month_from_time (local_time rt t)))"

definition getDate :: "runtime \<Rightarrow> date \<Rightarrow> number" where
  "getDate rt d = (case d of None \<Rightarrow> NaN | Some t \<Rightarrow> Num (date_from_time (local_time rt t)))"

text \<open>The setters return the new time value of the date they change.\<close>

definition clip_utc :: "runtime \<Rightarrow> number \<Rightarrow> date" where
  "clip_utc rt x = (case x of Num t \<Rightarrow> time_clip (Num (utc rt t)) | _ \<Rightarrow> None)"

definition setDate :: "runtime \<Rightarrow> date \<Rightarrow> number \<Rightarrow> date" where
  "setDate rt d dt =
     (case d of
        None \<Rightarrow> None
      | Some tv \<Rightarrow>
          (let t = local_time rt tv;
               newDate = make_date (make_day (Num (year_from_time t)) (Num (month_from_time t)) dt)
                           (time_within_day t)
           in clip_utc rt newDate))"

definition setFullYear :: "runtime \<Rightarrow> date \<Rightarrow> number \<Rightarrow> date" where
  "setFullYear rt d y =
     (let t = (case d of None \<Rightarrow> 0 | Some tv \<Rightarrow> local_time rt tv);
          newDate = make_date (make_day y (Num (month_from_time t)) (Num (date_from_time t)))
                      (time_within_day t)
      in clip_utc rt newDate)"

subsection \<open>Formatting a date for the \<^verbatim>\<open>en-GB\<close> locale\<close>

text \<open>The year as the locale prints it: the year of the era, so 1 for the year 0.\<close>

definition year_of_era :: "int \<Rightarrow> int" where
  "year_of_era y = (if 0 < y then y else 1 - y)"

definition two_digit :: "int \<Rightarrow> string" where
  "two_digit n = pad_start 2 CHR ''0'' (to_string (Num n))"

text \<open>
  \<^verbatim>\<open>toLocaleDateString("en-GB", options)\<close> on the local fields of the date. With a
  two-digit day and a numeric year the locale prints \<^verbatim>\<open>15 May 2023\<close> for an
  abbreviated month and \<^verbatim>\<open>15/05/2023\<close> for a two-digit one. These are the only
  combinations of options the source asks for; any other is left to \<open>other_layout\<close>.
  The invalid date prints as \<^verbatim>\<open>Invalid Date\<close>.
\<close>

definition toLocaleDateString :: "runtime \<Rightarrow> date \<Rightarrow> DateTimeFormatOptions \<Rightarrow> string" where
  "toLocaleDateString rt d opts =
     (case d of
        None \<Rightarrow> ''Invalid Date''
      | Some tv \<Rightarrow>
          (let t = local_time rt tv;
               dd = two_digit (date_from_time t);
               yyyy = to_string (Num (year_of_era (year_from_time t)))
           in if day_opt opts = Some ''2-digit'' \<and> year_opt opts = Some ''numeric''
                 \<and> month_opt opts = Some ''short''
              then dd @ '' '' @ month_short rt (month_from_time t) @ '' '' @ yyyy
              else if day_opt opts = Some ''2-digit'' \<and> year_opt opts = Some ''numeric''
                 \<and> month_opt opts = Some ''2-digit''
              then dd @ ''/'' @ two_digit (month_from_time t + 1) @ ''/'' @ yyyy
              else other_layout rt opts tv))"

section \<open>Money formatting\<close>

record FormatMoneyOptions =
  currency :: "string option"
  decimalPlaces :: "number option"
  locale_tag :: "string option"

text \<open>\<^verbatim>\<open>a || b\<close> on numbers that may be \<^verbatim>\<open>undefined\<close>\<close>

definition or_else :: "number option \<Rightarrow> number option \<Rightarrow> number option" where
  "or_else a b = (case a of None \<Rightarrow> b | Some x \<Rightarrow> if truthy x then a else b)"

text \<open>
  The precision table \<^verbatim>\<open>CurrencyConstants.precision\<close> is not part of the source at
  hand and is a parameter. \<open>fractionDigits\<close> is the value of the constant of that name in
  \<open>formatMoney\<close>.
\<close>

definition fractionDigits :: "(string \<rightharpoonup> number) \<Rightarrow> FormatMoneyOptions option \<Rightarrow> number option" where
  "fractionDigits precision options =
     (let opts = (case options of None \<Rightarrow> \<lparr>currency = None, decimalPlaces = None, locale_tag = None\<rparr>
                  | Some opts \<Rightarrow> opts);
          currencyPrecision = precision (case currency opts of None \<Rightarrow> ''USD'' | Some c \<Rightarrow> c)
      in or_else (decimalPlaces opts) currencyPrecision)"

text \<open>
  The amount is any double; how the locale-aware formatter
  (\<^verbatim>\<open>new Intl.NumberFormat(locale, {minimumFractionDigits, maximumFractionDigits}).format\<close>)
  and \<^verbatim>\<open>toString\<close> print it belongs to the runtime. The formatter may throw, for a
  locale tag or a number of digits it does not accept.
\<close>

record 'n number_runtime =
  number_format :: "string \<Rightarrow> number option \<Rightarrow> number option \<Rightarrow> 'n \<Rightarrow> error + string"
  number_to_string :: "'n \<Rightarrow> string"

definition try_catch :: "error + 'a \<Rightarrow> (error \<Rightarrow> error + 'a) \<Rightarrow> error + 'a" where
  "try_catch body handler = (case body of Inl e \<Rightarrow> handler e | Inr v \<Rightarrow> Inr v)"

definition formatMoney ::
    "'n number_runtime \<Rightarrow> (string \<rightharpoonup> number) \<Rightarrow> 'n \<Rightarrow> FormatMoneyOptions option \<Rightarrow> error + string" where
  "formatMoney nrt precision number options =
     try_catch
       (let opts = (case options of None \<Rightarrow> \<lparr>currency = None, decimalPlaces = None, locale_tag = None\<rparr>
                    | Some opts \<Rightarrow> opts);
            locale_tag = (case locale_tag opts of None \<Rightarrow> ''en-US'' | Some l \<Rightarrow> l);
            fractionDigits = fractionDigits precision options
        in number_format nrt locale_tag fractionDigits fractionDigits number)
       (\<lambda>e. Inr (number_to_string nrt number))"

section \<open>Date and time formatting\<close>

definition default_options :: DateTimeFormatOptions where
  "default_options =
     \<lparr>day_opt = Some ''2-digit'', month_opt = Some ''2-digit'', year_opt = Some ''numeric''\<rparr>"

definition typeof_number :: "js_value \<Rightarrow> bool" where
  "typeof_number v = (case v of Number _ \<Rightarrow> True | _ \<Rightarrow> False)"

definition typeof_string :: "js_value \<Rightarrow> bool" where
  "typeof_string v = (case v of String _ \<Rightarrow> True | _ \<Rightarrow> False)"

definition instanceof_Date :: "js_value \<Rightarrow> bool" where
  "instanceof_Date v = (case v of DateObj _ \<Rightarrow> True | _ \<Rightarrow> False)"

text \<open>\<^verbatim>\<open>dateInput * 1000\<close>, taken where \<open>dateInput\<close> is a number.\<close>

definition times_1000_of :: "js_value \<Rightarrow> number" where
  "times_1000_of v = (case v of Number x \<Rightarrow> times_1000 x | _ \<Rightarrow> NaN)"

text \<open>
  The block that opens both \<open>getFormattedDateString\<close> and \<open>getFormattedTimeString\<close>:
  it builds \<open>dateObj\<close> or throws.
\<close>

definition dateObj_of :: "runtime \<Rightarrow> js_value \<Rightarrow> bool \<Rightarrow> error + date" where
  "dateObj_of rt dateInput unix =
     (if typeof_number dateInput \<and> unix then Inr (new_Date rt (Number (times_1000_of dateInput)))
      else if typeof_string dateInput \<or> instanceof_Date dateInput then Inr (new_Date rt dateInput)
      else Inl (Error ''Invalid date input''))"

text \<open>
  A capture group in a replacement. Every group of the patterns below takes part in
  every match.
\<close>

definition grp :: "match_result \<Rightarrow> nat \<Rightarrow> string" where
  "grp m n = (case match_at m n of Some s \<Rightarrow> s | None \<Rightarrow> [])"

definition day_month_year_re :: "nat \<Rightarrow> re" where
  \<comment> \<open>\<^verbatim>\<open>/(\d{2}) (\w{3,hi}) (\d{4})/\<close>\<close>
  "day_month_year_re hi =
     Cat (Grp (Rep Digit 2 (Some 2)))
       (Cat (Cls (Lit CHR '' ''))
          (Cat (Grp (Rep Word 3 (Some hi)))
             (Cat (Cls (Lit CHR '' '')) (Grp (Rep Digit 4 (Some 4))))))"

definition slashes_re :: re where
  \<comment> \<open>\<^verbatim>\<open>/(\d{2})\/(\d{2})\/(\d{4})/\<close>\<close>
  "slashes_re =
     Cat (Grp (Rep Digit 2 (Some 2)))
       (Cat (Cls (Lit CHR ''/''))
          (Cat (Grp (Rep Digit 2 (Some 2)))
             (Cat (Cls (Lit CHR ''/'')) (Grp (Rep Digit 4 (Some 4))))))"

text \<open>
  The \<^verbatim>\<open>switch\<close> on the format either returns, in the case \<^verbatim>\<open>MMM DD YYYY\<close>
  (\<open>Inl\<close> below), or leaves the options for the rest of the function (\<open>Inr\<close>).
\<close>

definition getFormattedDateString ::
    "runtime \<Rightarrow> js_value \<Rightarrow> DateTimeFormatOptions option \<Rightarrow> string \<Rightarrow> bool \<Rightarrow> error + string" where
  "getFormattedDateString rt dateInput options format unix =
     (let dateOptions = (case options of None \<Rightarrow> default_options | Some opts \<Rightarrow> opts) in
      case dateObj_of rt dateInput unix of
        Inl e \<Rightarrow> Inl e
      | Inr dateObj \<Rightarrow>
          (case (if format = ''DD MMM YYYY'' then
                   Inr (dateOptions\<lparr>day_opt := Some ''2-digit'', month_opt := Some ''short'',
                          year_opt := Some ''numeric''\<rparr>)
                 else if format = ''MMM DD YYYY'' then
                   Inl (replace_re (day_month_year_re 3)
                          (\<lambda>m. grp m 2 @ '' '' @ grp m 1 @ '' '' @ grp m 3)
                          (toLocaleDateString rt dateObj
                             (dateOptions\<lparr>day_opt := Some ''2-digit'', month_opt := Some ''short'',
                                year_opt := Some ''numeric''\<rparr>)))
                 else
                   Inr (dateOptions\<lparr>year_opt := Some ''numeric'', month_opt := Some ''2-digit'',
                          day_opt := Some ''2-digit''\<rparr>)) of
             Inl returned \<Rightarrow> Inr returned
           | Inr dateOptions \<Rightarrow>
               (let formattedDate =
                      replace_re (day_month_year_re 4)
                        (\<lambda>m. grp m 1 @ '' '' @ take 3 (grp m 2) @ '' '' @ grp m 3)
                        (toLocaleDateString rt dateObj dateOptions)
                in Inr (if format = ''DD MMM YYYY'' \<or> format = ''MMM DD YYYY'' then formattedDate
                        else replace_re slashes_re
                               (\<lambda>m. grp m 3 @ ''-'' @ grp m 2 @ ''-'' @ grp m 1)
                               formattedDate))))"

definition getFormattedTimeString :: "runtime \<Rightarrow> js_value \<Rightarrow> bool \<Rightarrow> error + string" where
  "getFormattedTimeString rt dateInput unix =
     (case dateObj_of rt dateInput unix of
        Inl e \<Rightarrow> Inl e
      | Inr dateObj \<Rightarrow>
          Inr (pad_start 2 CHR ''0'' (to_string (getUTCHours dateObj)) @ '':''
               @ pad_start 2 CHR ''0'' (to_string (getUTCMinutes dateObj)) @ '':''
               @ pad_start 2 CHR ''0'' (to_string (getUTCSeconds dateObj)) @ '' GMT''))"

section \<open>Date adjustment\<close>

text \<open>\<^verbatim>\<open>new Date()\<close> is the date of the clock; \<open>type\<close> and \<open>operation\<close> are strings.\<close>

definition getAdjustedDate :: "runtime \<Rightarrow> number \<Rightarrow> string \<Rightarrow> string \<Rightarrow> date" where
  "getAdjustedDate rt amount type operation =
     (let date = Some (now rt);
          adjustedAmount = (if operation = ''add'' then amount else negate amount)
      in if type = ''years'' then setFullYear rt date (add_num (getFullYear rt date) adjustedAmount)
         else if type = ''days'' then setDate rt date (add_num (getDate rt date) adjustedAmount)
         else date)"

section \<open>Longcode parsing\<close>

text \<open>Reading an index of an array: \<^verbatim>\<open>undefined\<close> beyond its end.\<close>

definition at_index :: "'a list \<Rightarrow> nat \<Rightarrow> 'a option" where
  "at_index xs i = (if i < length xs then Some (xs ! i) else None)"

text \<open>
  \<^verbatim>\<open>exec\<close> converts its argument to a string; \<^verbatim>\<open>undefined\<close> becomes the
  nine letters of its name.
\<close>

definition to_subject :: "string option \<Rightarrow> string" where
  "to_subject v = (case v of None \<Rightarrow> ''undefined'' | Some s \<Rightarrow> s)"

definition separator_re :: re where
  \<comment> \<open>\<^verbatim>\<open>/,\s/\<close>\<close>
  "separator_re = Cat (Cls (Lit CHR '','')) (Cls Space)"

definition hash_re :: "nat \<Rightarrow> nat \<Rightarrow> re" where
  \<comment> \<open>\<^verbatim>\<open>/:\s([0-9a-zA-Z]+.{lo,hi})/\<close>\<close>
  "hash_re lo hi =
     Cat (Cls (Lit CHR '':''))
       (Cat (Cls Space) (Grp (Cat (Rep Alnum 1 None) (Rep Dot lo (Some hi)))))"

definition address_re :: re where
  "address_re = hash_re 25 28"

definition blockchain_re :: re where
  "blockchain_re = hash_re 25 34"

record longcode =
  addressHash :: "string option"
  blockchainHash :: "string option"
  splitLongcode :: "string list"

definition parseCryptoLongcode :: "string \<Rightarrow> longcode" where
  "parseCryptoLongcode code =
     (let splitLongcode = split_re separator_re [] code;
          addressHashMatch = re_exec address_re (to_subject (at_index splitLongcode 0));
          addressHash = Option.bind addressHashMatch (\<lambda>m. match_at m 1);
          blockchainHashMatch = re_exec blockchain_re (to_subject (at_index splitLongcode 1));
          blockchainHash = Option.bind blockchainHashMatch (\<lambda>m. match_at m 1)
      in \<lparr>addressHash = addressHash, blockchainHash = blockchainHash,
          splitLongcode = splitLongcode\<rparr>)"

section \<open>A sample runtime\<close>

text \<open>
  A runtime in the UTC time zone with the month names of the current \<^verbatim>\<open>en-GB\<close>
  locale data, in which September is abbreviated to four letters. Its parser reads the two
  layouts of the standard date-time string format that the examples use,
  \<^verbatim>\<open>YYYY-MM-DD\<close> and \<^verbatim>\<open>YYYY-MM-DDTHH:mm:ssZ\<close>, both in UTC, and
  gives NaN for any other string.
\<close>

definition digit_value :: "char \<Rightarrow> int" where
  "digit_value c = int (of_char c) - 48"

definition number_of_digits :: "string \<Rightarrow> int option" where
  "number_of_digits s =
     (if s \<noteq> [] \<and> list_all is_digit s then Some (foldl (\<lambda>n c. 10 * n + digit_value c) 0 s)
      else None)"

definition iso_fields :: "string \<Rightarrow> string \<Rightarrow> string \<Rightarrow> string \<Rightarrow> string \<Rightarrow> string \<Rightarrow> number" where
  "iso_fields ys ms ds hs mins ss =
     (case (number_of_digits ys, number_of_digits ms, number_of_digits ds,
            number_of_digits hs, number_of_digits mins, number_of_digits ss) of
        (Some y, Some m, Some d, Some h, Some mi, Some sec) \<Rightarrow>
          if 1 \<le> m \<and> m \<le> 12 \<and> 1 \<le> d \<and> d \<le> days_in_month y (m - 1)
             \<and> h < 24 \<and> mi < 60 \<and> sec < 60
          then make_date (make_day (Num y) (Num (m - 1)) (Num d))
                 (h * 3600000 + mi * 60000 + sec * 1000)
          else NaN
      | _ \<Rightarrow> NaN)"

definition iso_parse :: "string \<Rightarrow> number" where
  "iso_parse s =
     (if length s = 10 \<and> s ! 4 = CHR ''-'' \<and> s ! 7 = CHR ''-''
      then iso_fields (take 4 s) (take 2 (drop 5 s)) (take 2 (drop 8 s)) ''00'' ''00'' ''00''
      else if length s = 20 \<and> s ! 4 = CHR ''-'' \<and> s ! 7 = CHR ''-'' \<and> s ! 10 = CHR ''T''
              \<and> s ! 13 = CHR '':'' \<and> s ! 16 = CHR '':'' \<and> s ! 19 = CHR ''Z''
      then iso_fields (take 4 s) (take 2 (drop 5 s)) (take 2 (drop 8 s))
             (take 2 (drop 11 s)) (take 2 (drop 14 s)) (take 2 (drop 17 s))
      else NaN)"

definition en_GB_months :: "string list" where
  "en_GB_months =
     [''Jan'', ''Feb'', ''Mar'', ''Apr'', ''May'', ''Jun'',
      ''Jul'', ''Aug'', ''Sept'', ''Oct'', ''Nov'', ''Dec'']"

definition sample_runtime :: runtime where
  "sample_runtime =
     \<lparr>date_parse = iso_parse, local_tza = (\<lambda>t isUTC. 0),
      month_short = (\<lambda>m. en_GB_months ! nat m),
      other_layout = (\<lambda>opts t. []), now = 1684159800000\<rparr>"

section \<open>Notions used in the statements\<close>

text \<open>
  What is claimed of an extracted hash \<open>h\<close>: it stands in its token right after a
  colon and a whitespace character, and it is one or more alphanumeric characters followed
  by \<open>lo\<close> to \<open>hi\<close> further characters, none of them a line terminator.
\<close>

definition hash_after_prefix :: "nat \<Rightarrow> nat \<Rightarrow> string \<Rightarrow> string \<Rightarrow> bool" where
  "hash_after_prefix lo hi token h \<longleftrightarrow>
     (\<exists>pre sp a b post.
        token = pre @ CHR '':'' # sp # a @ b @ post \<and> h = a @ b \<and> is_space sp
        \<and> a \<noteq> [] \<and> list_all is_alnum a
        \<and> lo \<le> length b \<and> length b \<le> hi \<and> list_all (\<lambda>c. \<not> is_line_terminator c) b)"

definition sample_longcode :: string where
  "sample_longcode =
     ''address: 2NAGxmTMvK7r3Ht9Yv4Qb7ouLCVUF3FtmAE, transaction: 0c3e4d5f6a7b8c9d0e1f2a3b4c5d6e7f8a9b0c1d2e3f4a5b6c7d8e9f0a1b2c3d''"

text \<open>The layout \<^verbatim>\<open>HH:mm:ss GMT\<close> of the UTC time of day of a time value.\<close>

definition two_digits :: "int \<Rightarrow> string" where
  "two_digits n = [digit_char (nat n div 10), digit_char (nat n mod 10)]"

definition clock_string :: "int \<Rightarrow> string" where
  "clock_string t =
     two_digits ((t div 3600000) mod 24) @ '':'' @ two_digits ((t div 60000) mod 60) @ '':''
     @ two_digits ((t div 1000) mod 60) @ '' GMT''"

text \<open>
  The time value with the given year, month, day of the month and time within the day.
\<close>

definition civil_time :: "int \<Rightarrow> int \<Rightarrow> int \<Rightarrow> int \<Rightarrow> int" where
  "civil_time y m d tw =
     (day_from_year y + days_before_month (if days_in_year y = 366 then 1 else 0) m + d - 1)
       * ms_per_day + tw"

text \<open>The same month, day and time of day, \<open>k\<close> years later.\<close>

definition years_later :: "int \<Rightarrow> int \<Rightarrow> int" where
  "years_later t k =
     civil_time (year_from_time t + k) (month_from_time t) (date_from_time t) (time_within_day t)"

definition local_now :: "runtime \<Rightarrow> int" where
  "local_now rt = local_time rt (now rt)"

definition signed_amount :: "string \<Rightarrow> int \<Rightarrow> int" where
  "signed_amount operation n = (if operation = ''add'' then n else - n)"

text \<open>The calendar-date value of an instant: the invalid date beyond the range of time values.\<close>

definition date_at :: "int \<Rightarrow> date" where
  "date_at u = (if \<bar>u\<bar> \<le> 8640000000000000 then Some u else None)"


declare year_up.simps [simp del] year_down.simps [simp del]

lemmas char_class_defs =
  is_space_def is_alnum_def is_digit_def is_lower_def is_upper_def is_line_terminator_def

lemmas parse_defs =
  parseCryptoLongcode_def separator_re_def address_re_def blockchain_re_def hash_re_def
  re_exec_def to_subject_def at_index_def match_at_def match_here_def

lemmas regex_eval =
  replace_re_def re_exec_def match_here_def day_month_year_re_def slashes_re_def grp_def
  match_at_def char_class_defs

lemmas input_defs =
  dateObj_of_def typeof_number_def typeof_string_def instanceof_Date_def times_1000_of_def

lemmas calendar_eval =
  year_from_time_def month_from_time_def date_from_time_def day_within_year_def
  in_leap_year_def day_def ms_per_day_def day_from_year_def days_in_year_def
  days_before_month_def year_up.simps year_down.simps

lemmas iso_eval =
  iso_parse_def iso_fields_def number_of_digits_def digit_value_def is_digit_def
  days_in_month_def days_in_year_def make_date_def make_day_def day_from_year_def
  days_before_month_def ms_per_day_def

section \<open>Properties of longcode parsing\<close>

subsection \<open>The matcher\<close>

lemma rep_try_SomeD:
  "rep_try s lo j cont = Some x \<Longrightarrow> \<exists>i. lo \<le> i \<and> i \<le> j \<and> cont (drop i s) = Some x"
proof (induction s lo j cont rule: rep_try.induct)
  case (1 s lo j cont)
  show ?case
  proof (cases "cont (drop j s)")
    case (Some y)
    with "1.prems" have "\<not> j < lo" "y = x" by (auto split: if_splits)
    with Some show ?thesis by (intro exI [of _ j]) simp
  next
    case None
    with "1.prems" have nlt: "\<not> j < lo" and j0: "j \<noteq> 0"
      and rec: "rep_try s lo (j - 1) cont = Some x"
      by (auto split: if_splits)
    from "1.IH" [OF nlt None j0 rec] obtain i where "lo \<le> i" "i \<le> j - 1" "cont (drop i s) = Some x"
      by blast
    then show ?thesis by (intro exI [of _ i]) simp
  qed
qed

lemma re_match_Cls_D:
  "re_match (Cls k) s caps cont = Some x \<Longrightarrow>
     \<exists>ch rest. s = ch # rest \<and> in_cls k ch \<and> cont caps rest = Some x"
  by (auto split: list.splits if_splits)

lemma take_takeWhile:
  assumes "j \<le> length (takeWhile P s)"
  shows "take j s = take j (takeWhile P s)"
proof -
  have "take j s = take j (takeWhile P s @ dropWhile P s)"
    by (simp only: takeWhile_dropWhile_id)
  also have "\<dots> = take j (takeWhile P s)"
    using assms by (simp del: takeWhile_dropWhile_id)
  finally show ?thesis .
qed

lemma re_match_Rep_D:
  assumes "re_match (Rep k lo hi) s caps cont = Some x"
  shows "\<exists>w rest. s = w @ rest \<and> lo \<le> length w \<and> (\<forall>h. hi = Some h \<longrightarrow> length w \<le> h)
            \<and> (\<forall>c\<in>set w. in_cls k c) \<and> cont caps rest = Some x"
proof -
  define n where "n = length (takeWhile (in_cls k) s)"
  define mx where "mx = (case hi of None \<Rightarrow> n | Some h \<Rightarrow> min n h)"
  have "re_match (Rep k lo hi) s caps cont = rep_try s lo mx (cont caps)"
    unfolding n_def mx_def re_match.simps Let_def ..
  with assms have "rep_try s lo mx (cont caps) = Some x" by simp
  from rep_try_SomeD [OF this] obtain j where
    jm: "lo \<le> j" "j \<le> mx" and x: "cont caps (drop j s) = Some x" by blast
  from jm(2) have j2: "j \<le> n" "\<forall>h. hi = Some h \<longrightarrow> j \<le> h"
    by (auto simp: mx_def split: option.splits)
  have le: "j \<le> length s"
    using j2(1) length_takeWhile_le [of "in_cls k" s] by (simp add: n_def)
  have tk: "take j s = take j (takeWhile (in_cls k) s)"
    using j2(1) unfolding n_def by (rule take_takeWhile)
  have all: "\<forall>c\<in>set (take j s). in_cls k c"
    unfolding tk by (auto dest: in_set_takeD set_takeWhileD)
  have "s = take j s @ drop j s" by simp
  moreover have "length (take j s) = j" using le by simp
  ultimately show ?thesis using jm(1) j2(2) all x
    by (intro exI [of _ "take j s"] exI [of _ "drop j s"]) simp
qed

lemma re_match_suffix:
  "re_match r s caps cont = Some x \<Longrightarrow> \<exists>c w rest. s = w @ rest \<and> cont c rest = Some x"
proof (induction r arbitrary: s caps cont)
  case (Cls k)
  from re_match_Cls_D [OF Cls] show ?case by (metis append_Cons append_Nil)
next
  case (Rep k lo hi)
  from re_match_Rep_D [OF Rep] show ?case by blast
next
  case (Cat a b)
  from Cat.prems have "re_match a s caps (\<lambda>c r. re_match b r c cont) = Some x" by simp
  from Cat.IH(1) [OF this] obtain c1 w1 r1 where
    1: "s = w1 @ r1" "re_match b r1 c1 cont = Some x" by blast
  from Cat.IH(2) [OF 1(2)] obtain c2 w2 r2 where
    2: "r1 = w2 @ r2" "cont c2 r2 = Some x" by blast
  from 1(1) 2 show ?case by (intro exI [of _ c2] exI [of _ "w1 @ w2"] exI [of _ r2]) simp
next
  case (Grp a)
  from Grp.prems
  have "re_match a s caps (\<lambda>c r. cont (c @ [take (length s - length r) s]) r) = Some x" by simp
  from Grp.IH [OF this] show ?case by blast
qed

lemma match_here_suffix:
  assumes "match_here r s = Some (caps, rest)"
  shows "\<exists>w. s = w @ rest"
  using re_match_suffix [OF assms [unfolded match_here_def]] by auto

lemma re_search_SomeD:
  "re_search r i s = Some m \<Longrightarrow>
     \<exists>pre rest. s = pre @ matched m @ rest \<and> index m = i + length pre
        \<and> match_here r (matched m @ rest) = Some (groups m, rest)"
proof (induction s arbitrary: i)
  case Nil
  then obtain caps rest where 1: "match_here r [] = Some (caps, rest)"
    and m: "m = \<lparr>index = i, matched = [], groups = caps\<rparr>"
    by (auto split: option.splits)
  from match_here_suffix [OF 1] have "rest = []" by simp
  with 1 m show ?case by simp
next
  case (Cons c cs)
  show ?case
  proof (cases "match_here r (c # cs)")
    case None
    with Cons.prems have "re_search r (Suc i) cs = Some m" by simp
    from Cons.IH [OF this] obtain pre rest where
      "cs = pre @ matched m @ rest" "index m = Suc i + length pre"
      "match_here r (matched m @ rest) = Some (groups m, rest)" by blast
    then show ?thesis
      by (intro exI [of _ "c # pre"] exI [of _ rest]) simp
  next
    case (Some p)
    obtain caps rest where p: "p = (caps, rest)" by (cases p)
    from match_here_suffix [OF Some [unfolded p]] obtain w where w: "c # cs = w @ rest" by blast
    from Cons.prems Some p
    have m: "m = \<lparr>index = i, matched = take (length (c # cs) - length rest) (c # cs), groups = caps\<rparr>"
      by simp
    have "take (length (c # cs) - length rest) (c # cs) = w" by (simp add: w)
    with m have "matched m = w" "index m = i" "groups m = caps" by simp_all
    with w Some p show ?thesis
      by (intro exI [of _ "[]"] exI [of _ rest]) simp
  qed
qed

lemma split_re_nonempty: "split_re r acc s \<noteq> []"
  by (induction s arbitrary: acc) (auto split: option.splits)

subsection \<open>The two hash patterns\<close>

lemma hash_re_matchD:
  assumes "match_here (hash_re lo hi) s = Some (caps, rest)"
  shows "\<exists>sp a b. s = CHR '':'' # sp # a @ b @ rest \<and> caps = [a @ b] \<and> is_space sp
           \<and> a \<noteq> [] \<and> (\<forall>x\<in>set a. is_alnum x)
           \<and> lo \<le> length b \<and> length b \<le> hi \<and> (\<forall>x\<in>set b. \<not> is_line_terminator x)"
proof -
  let ?k3 = "\<lambda>r2 c3 r4. re_match (Rep Dot lo (Some hi)) r4 c3
               (\<lambda>c r. Some (c @ [take (length r2 - length r) r2], r))"
  let ?k2 = "\<lambda>c2 r2. re_match (Rep Alnum 1 None) r2 c2 (?k3 r2)"
  let ?k1 = "\<lambda>c1 r1. re_match (Cls Space) r1 c1 ?k2"
  from assms have 0: "re_match (Cls (Lit CHR '':'')) s [] ?k1 = Some (caps, rest)"
    unfolding match_here_def hash_re_def re_match.simps(3,4) .
  from re_match_Cls_D [OF 0] obtain r1 where
    s: "s = CHR '':'' # r1" and 1: "re_match (Cls Space) r1 [] ?k2 = Some (caps, rest)" by auto
  from re_match_Cls_D [OF 1] obtain sp r2 where
    r1: "r1 = sp # r2" "is_space sp"
    and 2: "re_match (Rep Alnum 1 None) r2 [] (?k3 r2) = Some (caps, rest)" by auto
  from re_match_Rep_D [OF 2] obtain a r4 where
    a: "r2 = a @ r4" "1 \<le> length a" "\<forall>c\<in>set a. in_cls Alnum c"
    and 3: "?k3 r2 [] r4 = Some (caps, rest)" by blast
  from re_match_Rep_D [OF 3] obtain b r5 where
    b: "r4 = b @ r5" "lo \<le> length b" "length b \<le> hi" "\<forall>c\<in>set b. in_cls Dot c"
    and 4: "Some ([] @ [take (length r2 - length r5) r2], r5) = Some (caps, rest)" by blast
  from 4 have r5: "r5 = rest" and caps: "caps = [take (length r2 - length rest) r2]" by auto
  have "take (length r2 - length rest) r2 = a @ b" using a(1) b(1) r5 by simp
  with caps s r1 a b r5 show ?thesis
    by (intro exI [of _ sp] exI [of _ a] exI [of _ b]) auto
qed

lemma hash_re_exec_shape:
  assumes "re_exec (hash_re lo hi) s = Some m"
  shows "\<exists>h. match_at m 1 = Some h \<and> hash_after_prefix lo hi s h"
proof -
  from re_search_SomeD [OF assms [unfolded re_exec_def]] obtain pre rest where
    s: "s = pre @ matched m @ rest" and
    g: "match_here (hash_re lo hi) (matched m @ rest) = Some (groups m, rest)" by blast
  from hash_re_matchD [OF g] obtain sp a b where
    h: "matched m @ rest = CHR '':'' # sp # a @ b @ rest" "groups m = [a @ b]" "is_space sp"
       "a \<noteq> []" "\<forall>x\<in>set a. is_alnum x" "lo \<le> length b" "length b \<le> hi"
       "\<forall>x\<in>set b. \<not> is_line_terminator x" by blast
  have "match_at m 1 = Some (a @ b)" by (simp add: match_at_def h(2))
  moreover have "s = pre @ CHR '':'' # sp # a @ b @ rest" using s h(1) by simp
  ultimately show ?thesis using h(3-)
    unfolding hash_after_prefix_def list_all_iff by blast
qed

lemma no_hash_in_undefined: "re_exec (hash_re lo hi) ''undefined'' = None"
  by (simp add: re_exec_def hash_re_def match_here_def)

lemma bind_hash_None:
  "Option.bind (re_exec (hash_re lo hi) s) (\<lambda>m. match_at m 1) = None \<longleftrightarrow>
     re_exec (hash_re lo hi) s = None"
proof (cases "re_exec (hash_re lo hi) s")
  case None
  then show ?thesis by simp
next
  case (Some m)
  from hash_re_exec_shape [OF Some] obtain h where "match_at m 1 = Some h" by blast
  with Some show ?thesis by simp
qed

lemma addressHash_eq:
  "addressHash (parseCryptoLongcode code) =
     Option.bind (re_exec address_re (to_subject (at_index (split_re separator_re [] code) 0)))
       (\<lambda>m. match_at m 1)"
  by (simp add: parseCryptoLongcode_def Let_def)

lemma blockchainHash_eq:
  "blockchainHash (parseCryptoLongcode code) =
     Option.bind (re_exec blockchain_re (to_subject (at_index (split_re separator_re [] code) 1)))
       (\<lambda>m. match_at m 1)"
  by (simp add: parseCryptoLongcode_def Let_def)

lemma splitLongcode_eq:
  "splitLongcode (parseCryptoLongcode code) = split_re separator_re [] code"
  by (simp add: parseCryptoLongcode_def Let_def)

lemma first_token: "to_subject (at_index (split_re r [] code) 0) = split_re r [] code ! 0"
  using split_re_nonempty [of r "[]" code] by (simp add: to_subject_def at_index_def)

lemma second_token:
  assumes "re_exec (hash_re lo hi) (to_subject (at_index toks 1)) = Some m"
  shows "1 < length toks \<and> to_subject (at_index toks 1) = toks ! 1"
proof (cases "1 < length toks")
  case True
  then show ?thesis by (simp add: to_subject_def at_index_def)
next
  case False
  then have "to_subject (at_index toks 1) = ''undefined''"
    by (simp add: to_subject_def at_index_def)
  with assms no_hash_in_undefined [of lo hi] show ?thesis by simp
qed

text \<open>
  Claim C4, as amended. Whenever \<open>parseCryptoLongcode\<close> returns an \<open>addressHash\<close>, the
  first token holds it right after a colon and a whitespace character, and it is one or
  more alphanumeric characters followed by 25 to 28 further characters that are not line
  terminators; so it has at least 26 characters, but no upper bound, and they need not all
  be alphanumeric. Whenever it returns a \<open>blockchainHash\<close>, the second token exists and
  holds it in the same way, with 25 to 34 further characters.
\<close>

theorem parseCryptoLongcode_hash_shape:
  "(addressHash (parseCryptoLongcode code) = Some h \<longrightarrow>
      splitLongcode (parseCryptoLongcode code) \<noteq> []
      \<and> hash_after_prefix 25 28 (splitLongcode (parseCryptoLongcode code) ! 0) h)
   \<and> (blockchainHash (parseCryptoLongcode code) = Some h' \<longrightarrow>
      1 < length (splitLongcode (parseCryptoLongcode code))
      \<and> hash_after_prefix 25 34 (splitLongcode (parseCryptoLongcode code) ! 1) h')"
proof (intro conjI impI)
  assume a: "addressHash (parseCryptoLongcode code) = Some h"
  show "splitLongcode (parseCryptoLongcode code) \<noteq> []"
    by (simp add: splitLongcode_eq split_re_nonempty)
  from a obtain m where m: "re_exec (hash_re 25 28) (split_re separator_re [] code ! 0) = Some m"
      and h: "match_at m 1 = Some h"
    unfolding addressHash_eq first_token address_re_def by (auto simp: bind_eq_Some_conv)
  from hash_re_exec_shape [OF m] h
  show "hash_after_prefix 25 28 (splitLongcode (parseCryptoLongcode code) ! 0) h"
    by (auto simp: splitLongcode_eq)
next
  assume b: "blockchainHash (parseCryptoLongcode code) = Some h'"
  then obtain m where
    m: "re_exec (hash_re 25 34) (to_subject (at_index (split_re separator_re [] code) 1)) = Some m"
      and h: "match_at m 1 = Some h'"
    unfolding blockchainHash_eq blockchain_re_def by (auto simp: bind_eq_Some_conv)
  from second_token [OF m] have len: "1 < length (split_re separator_re [] code)"
    and tok: "to_subject (at_index (split_re separator_re [] code) 1) = split_re separator_re [] code ! 1"
    by simp_all
  from len show "1 < length (splitLongcode (parseCryptoLongcode code))"
    by (simp add: splitLongcode_eq)
  from hash_re_exec_shape [OF m] h tok
  show "hash_after_prefix 25 34 (splitLongcode (parseCryptoLongcode code) ! 1) h'"
    by (auto simp: splitLongcode_eq)
qed

lemma sample_longcode_address:
  "addressHash (parseCryptoLongcode sample_longcode) = Some ''2NAGxmTMvK7r3Ht9Yv4Qb7ouLCVUF3FtmAE''"
  by (simp add: sample_longcode_def parse_defs char_class_defs)

lemma sample_longcode_blockchain:
  "blockchainHash (parseCryptoLongcode sample_longcode) =
     Some ''0c3e4d5f6a7b8c9d0e1f2a3b4c5d6e7f8a9b0c1d2e3f4a5b6c7d8e9f0a1b2c3d''"
  by (simp add: sample_longcode_def parse_defs char_class_defs)

lemma sample_longcode_split:
  "splitLongcode (parseCryptoLongcode sample_longcode) =
     [''address: 2NAGxmTMvK7r3Ht9Yv4Qb7ouLCVUF3FtmAE'',
      ''transaction: 0c3e4d5f6a7b8c9d0e1f2a3b4c5d6e7f8a9b0c1d2e3f4a5b6c7d8e9f0a1b2c3d'']"
  by (simp add: sample_longcode_def parse_defs char_class_defs)

theorem parseCryptoLongcode_hash_shape_witness:
  "addressHash (parseCryptoLongcode sample_longcode) = Some ''2NAGxmTMvK7r3Ht9Yv4Qb7ouLCVUF3FtmAE''
   \<and> hash_after_prefix 25 28 ''address: 2NAGxmTMvK7r3Ht9Yv4Qb7ouLCVUF3FtmAE''
        ''2NAGxmTMvK7r3Ht9Yv4Qb7ouLCVUF3FtmAE''
   \<and> blockchainHash (parseCryptoLongcode sample_longcode) =
        Some ''0c3e4d5f6a7b8c9d0e1f2a3b4c5d6e7f8a9b0c1d2e3f4a5b6c7d8e9f0a1b2c3d''
   \<and> hash_after_prefix 25 34
        ''transaction: 0c3e4d5f6a7b8c9d0e1f2a3b4c5d6e7f8a9b0c1d2e3f4a5b6c7d8e9f0a1b2c3d''
        ''0c3e4d5f6a7b8c9d0e1f2a3b4c5d6e7f8a9b0c1d2e3f4a5b6c7d8e9f0a1b2c3d''"
  using parseCryptoLongcode_hash_shape [of sample_longcode
      "''2NAGxmTMvK7r3Ht9Yv4Qb7ouLCVUF3FtmAE''"
      "''0c3e4d5f6a7b8c9d0e1f2a3b4c5d6e7f8a9b0c1d2e3f4a5b6c7d8e9f0a1b2c3d''"]
    sample_longcode_address sample_longcode_blockchain
  by (simp add: sample_longcode_split)

text \<open>
  The bounds of claim C4 as first stated, 26 to 29 alphanumeric characters, fail: here the
  address hash has 45 characters, among them a space and brackets.
\<close>

theorem parseCryptoLongcode_hash_counterexample:
  "addressHash (parseCryptoLongcode ''address: 2NAGxmTMvK7r3Ht9Yv4Qb7ouLCVUF3FtmAE (pending)'')
     = Some ''2NAGxmTMvK7r3Ht9Yv4Qb7ouLCVUF3FtmAE (pending)''
   \<and> length ''2NAGxmTMvK7r3Ht9Yv4Qb7ouLCVUF3FtmAE (pending)'' = 45
   \<and> \<not> list_all is_alnum ''2NAGxmTMvK7r3Ht9Yv4Qb7ouLCVUF3FtmAE (pending)''"
  by (simp add: parse_defs char_class_defs)

text \<open>
  Claim C10. \<open>parseCryptoLongcode\<close> is total: it returns a record for every string and
  has no error to raise. Its two extractions are independent: \<open>addressHash\<close> is unset
  exactly when the address pattern does not match the first token, and
  \<open>blockchainHash\<close> is unset exactly when there is no second token or the blockchain
  pattern does not match it.
\<close>

theorem parseCryptoLongcode_independent:
  "(addressHash (parseCryptoLongcode code) = None \<longleftrightarrow>
      re_exec address_re (splitLongcode (parseCryptoLongcode code) ! 0) = None)
   \<and> (blockchainHash (parseCryptoLongcode code) = None \<longleftrightarrow>
      length (splitLongcode (parseCryptoLongcode code)) < 2
      \<or> re_exec blockchain_re (splitLongcode (parseCryptoLongcode code) ! 1) = None)"
proof (intro conjI)
  show "addressHash (parseCryptoLongcode code) = None \<longleftrightarrow>
      re_exec address_re (splitLongcode (parseCryptoLongcode code) ! 0) = None"
    unfolding addressHash_eq first_token splitLongcode_eq address_re_def
    by (rule bind_hash_None)
  show "blockchainHash (parseCryptoLongcode code) = None \<longleftrightarrow>
      length (splitLongcode (parseCryptoLongcode code)) < 2
      \<or> re_exec blockchain_re (splitLongcode (parseCryptoLongcode code) ! 1) = None"
  proof (cases "length (split_re separator_re [] code) < 2")
    case True
    then have "to_subject (at_index (split_re separator_re [] code) 1) = ''undefined''"
      by (simp add: to_subject_def at_index_def)
    with True show ?thesis
      unfolding blockchainHash_eq splitLongcode_eq blockchain_re_def
      by (simp add: no_hash_in_undefined)
  next
    case False
    then have tok: "to_subject (at_index (split_re separator_re [] code) 1) = split_re separator_re [] code ! 1"
      by (simp add: to_subject_def at_index_def)
    have "\<not> length (split_re separator_re [] code) < 2" by (rule False)
    then show ?thesis
      unfolding blockchainHash_eq splitLongcode_eq blockchain_re_def tok bind_hash_None
      by simp
  qed
qed

text \<open>
  A first segment without a hash leaves \<open>addressHash\<close> unset while \<open>blockchainHash\<close>
  is set; a longcode of one segment leaves \<open>blockchainHash\<close> unset.
\<close>

theorem parseCryptoLongcode_independent_witness:
  "addressHash (parseCryptoLongcode ''pending, transaction: 0c3e4d5f6a7b8c9d0e1f2a3b4c5d6e7f'') = None
   \<and> blockchainHash (parseCryptoLongcode ''pending, transaction: 0c3e4d5f6a7b8c9d0e1f2a3b4c5d6e7f'')
       = Some ''0c3e4d5f6a7b8c9d0e1f2a3b4c5d6e7f''
   \<and> re_exec address_re ''pending'' = None
   \<and> blockchainHash (parseCryptoLongcode ''address: 2NAGxmTMvK7r3Ht9Yv4Qb7ouLCVUF3FtmAE'') = None"
proof -
  have 1: "splitLongcode (parseCryptoLongcode ''pending, transaction: 0c3e4d5f6a7b8c9d0e1f2a3b4c5d6e7f'')
             = [''pending'', ''transaction: 0c3e4d5f6a7b8c9d0e1f2a3b4c5d6e7f'']"
    by (simp add: parse_defs char_class_defs)
  have 2: "re_exec address_re ''pending'' = None"
    by (simp add: parse_defs char_class_defs)
  have 3: "blockchainHash (parseCryptoLongcode ''pending, transaction: 0c3e4d5f6a7b8c9d0e1f2a3b4c5d6e7f'')
       = Some ''0c3e4d5f6a7b8c9d0e1f2a3b4c5d6e7f''"
    by (simp add: parse_defs char_class_defs)
  have 4: "splitLongcode (parseCryptoLongcode ''address: 2NAGxmTMvK7r3Ht9Yv4Qb7ouLCVUF3FtmAE'')
             = [''address: 2NAGxmTMvK7r3Ht9Yv4Qb7ouLCVUF3FtmAE'']"
    by (simp add: parse_defs char_class_defs)
  from parseCryptoLongcode_independent [of "''pending, transaction: 0c3e4d5f6a7b8c9d0e1f2a3b4c5d6e7f''"]
    parseCryptoLongcode_independent [of "''address: 2NAGxmTMvK7r3Ht9Yv4Qb7ouLCVUF3FtmAE''"]
  show ?thesis unfolding 1 4 using 2 3 by simp
qed

section \<open>Properties of the calendar\<close>

subsection \<open>Years\<close>

lemma div_step:
  fixes z k :: int
  assumes "0 < k"
  shows "z div k = (z - 1) div k + (if z mod k = 0 then 1 else 0)"
proof (cases "z mod k = 0")
  case True
  have "k * (z div k) + z mod k = z" by (rule mult_div_mod_eq)
  with True have "z = k * (z div k)" by simp
  then have "z - 1 = k * (z div k - 1) + (k - 1)" by (simp add: algebra_simps)
  then have "(z - 1) div k = z div k - 1"
    using assms by (intro int_div_pos_eq [where r = "k - 1"]) simp_all
  with True show ?thesis by simp
next
  case False
  have r: "0 \<le> z mod k" "z mod k < k" using assms by simp_all
  with False have r1: "0 \<le> z mod k - 1" by linarith
  have "z - 1 = k * (z div k) + (z mod k - 1)" by (simp add: algebra_simps)
  then have "(z - 1) div k = z div k"
    using r r1 by (intro int_div_pos_eq [where r = "z mod k - 1"]) simp_all
  with False show ?thesis by simp
qed

lemma mod_shift:
  fixes y :: int
  shows "(y - 1968) mod 4 = y mod 4" "(y - 1900) mod 100 = y mod 100"
    "(y - 1600) mod 400 = y mod 400"
proof -
  have "(y + 4 * (- 492)) mod 4 = y mod 4" by (rule mod_mult_self2)
  then show "(y - 1968) mod 4 = y mod 4" by simp
  have "(y + 100 * (- 19)) mod 100 = y mod 100" by (rule mod_mult_self2)
  then show "(y - 1900) mod 100 = y mod 100" by simp
  have "(y + 400 * (- 4)) mod 400 = y mod 400" by (rule mod_mult_self2)
  then show "(y - 1600) mod 400 = y mod 400" by simp
qed

lemma mod_400_100_4:
  fixes y :: int
  shows "y mod 400 = 0 \<Longrightarrow> y mod 100 = 0" "y mod 100 = 0 \<Longrightarrow> y mod 4 = 0"
proof -
  have a: "y mod 400 mod 100 = y mod 100" by (rule mod_mod_cancel) simp
  have b: "y mod 100 mod 4 = y mod 4" by (rule mod_mod_cancel) simp
  show "y mod 400 = 0 \<Longrightarrow> y mod 100 = 0" using a by simp
  show "y mod 100 = 0 \<Longrightarrow> y mod 4 = 0" using b by simp
qed

lemma day_from_year_step: "day_from_year (y + 1) = day_from_year y + days_in_year y"
proof -
  have 4: "(y - 1968) div 4 = (y - 1969) div 4 + (if y mod 4 = 0 then 1 else 0)"
    using div_step [of 4 "y - 1968"] by (simp add: mod_shift)
  have 100: "(y - 1900) div 100 = (y - 1901) div 100 + (if y mod 100 = 0 then 1 else 0)"
    using div_step [of 100 "y - 1900"] by (simp add: mod_shift)
  have 400: "(y - 1600) div 400 = (y - 1601) div 400 + (if y mod 400 = 0 then 1 else 0)"
    using div_step [of 400 "y - 1600"] by (simp add: mod_shift)
  have "day_from_year (y + 1) =
      365 * (y - 1969) + (y - 1968) div 4 - (y - 1900) div 100 + (y - 1600) div 400"
    by (simp add: day_from_year_def)
  also have "\<dots> = day_from_year y + 365 + (if y mod 4 = 0 then 1 else 0)
      - (if y mod 100 = 0 then 1 else 0) + (if y mod 400 = 0 then 1 else 0)"
    unfolding 4 100 400 day_from_year_def by simp
  also have "\<dots> = day_from_year y + days_in_year y"
    using mod_400_100_4 [of y] by (auto simp: days_in_year_def)
  finally show ?thesis .
qed


lemma days_in_year_pos: "365 \<le> days_in_year y" "days_in_year y \<le> 366"
  by (simp_all add: days_in_year_def)

lemma day_from_year_mono_aux: "day_from_year y \<le> day_from_year (y + int k)"
proof (induction k)
  case 0
  then show ?case by simp
next
  case (Suc k)
  have "y + int (Suc k) = y + int k + 1" by simp
  then have "day_from_year (y + int (Suc k)) = day_from_year (y + int k + 1)"
    by (rule arg_cong)
  also have "\<dots> = day_from_year (y + int k) + days_in_year (y + int k)"
    by (rule day_from_year_step)
  finally show ?case using Suc days_in_year_pos(1) [of "y + int k"] by linarith
qed

lemma day_from_year_mono: "y \<le> z \<Longrightarrow> day_from_year y \<le> day_from_year z"
  using day_from_year_mono_aux [of y "nat (z - y)"] by simp

lemma year_up_bounds:
  "day_from_year y \<le> d \<Longrightarrow>
     day_from_year (year_up d y) \<le> d \<and> d < day_from_year (year_up d y + 1)"
proof (induction d y rule: year_up.induct)
  case (1 d y)
  show ?case
  proof (cases "day_from_year (y + 1) \<le> d")
    case True
    then have "year_up d y = year_up d (y + 1)" by (subst year_up.simps) simp
    with "1.IH" [OF True True] show ?thesis by simp
  next
    case False
    then have "year_up d y = y" by (subst year_up.simps) simp
    with False "1.prems" show ?thesis by simp
  qed
qed

lemma year_down_bounds:
  "d < day_from_year (y + 1) \<Longrightarrow>
     day_from_year (year_down d y) \<le> d \<and> d < day_from_year (year_down d y + 1)"
proof (induction d y rule: year_down.induct)
  case (1 d y)
  show ?case
  proof (cases "d < day_from_year y")
    case True
    then have "year_down d y = year_down d (y - 1)" by (subst year_down.simps) simp
    with "1.IH" [OF True] True show ?thesis by simp
  next
    case False
    then have "year_down d y = y" by (subst year_down.simps) simp
    with False "1.prems" show ?thesis by simp
  qed
qed

lemma day_from_year_1970: "day_from_year 1970 = 0"
  by (simp add: day_from_year_def)

lemma year_from_time_bounds:
  "day_from_year (year_from_time t) \<le> day t"
  "day t < day_from_year (year_from_time t + 1)"
proof -
  have "day_from_year (year_from_time t) \<le> day t \<and> day t < day_from_year (year_from_time t + 1)"
  proof (cases "0 \<le> day t")
    case True
    then show ?thesis
      using year_up_bounds [of 1970 "day t"] by (simp add: year_from_time_def day_from_year_1970)
  next
    case False
    then show ?thesis
      using year_down_bounds [of "day t" 1969]
      by (simp add: year_from_time_def day_from_year_1970)
  qed
  then show "day_from_year (year_from_time t) \<le> day t"
    "day t < day_from_year (year_from_time t + 1)" by simp_all
qed

lemma year_from_time_unique:
  assumes "day_from_year y \<le> day t" "day t < day_from_year (y + 1)"
  shows "year_from_time t = y"
proof (rule ccontr)
  assume ne: "year_from_time t \<noteq> y"
  show False
  proof (cases "year_from_time t < y")
    case True
    then have "day_from_year (year_from_time t + 1) \<le> day_from_year y"
      by (intro day_from_year_mono) simp
    with assms(1) year_from_time_bounds(2) [of t] show False by linarith
  next
    case False
    with ne have "day_from_year (y + 1) \<le> day_from_year (year_from_time t)"
      by (intro day_from_year_mono) simp
    with assms(2) year_from_time_bounds(1) [of t] show False by linarith
  qed
qed

lemma day_within_year_bounds:
  "0 \<le> day_within_year t" "day_within_year t < days_in_year (year_from_time t)"
  using year_from_time_bounds [of t] day_from_year_step [of "year_from_time t"]
  by (simp_all add: day_within_year_def)

subsection \<open>Months and days\<close>

lemma days_in_year_cases: "days_in_year y = 365 \<or> days_in_year y = 366"
  by (simp add: days_in_year_def)

lemma month_from_time_range: "0 \<le> month_from_time t" "month_from_time t \<le> 11"
  by (simp_all add: month_from_time_def Let_def)

lemma date_from_time_range:
  "1 \<le> date_from_time t"
  "date_from_time t \<le> days_in_month (year_from_time t) (month_from_time t)"
proof -
  define dd where "dd = day_within_year t"
  have b: "0 \<le> dd" "dd < days_in_year (year_from_time t)"
    using day_within_year_bounds [of t] by (simp_all add: dd_def)
  have "1 \<le> date_from_time t
      \<and> date_from_time t \<le> days_in_month (year_from_time t) (month_from_time t)"
  proof (cases "days_in_year (year_from_time t) = 366")
    case True
    with b show ?thesis
      unfolding date_from_time_def month_from_time_def in_leap_year_def Let_def
        days_in_month_def dd_def [symmetric]
      by (simp add: days_before_month_def)
  next
    case False
    with days_in_year_cases [of "year_from_time t"]
    have "days_in_year (year_from_time t) = 365" by simp
    with b show ?thesis
      unfolding date_from_time_def month_from_time_def in_leap_year_def Let_def
        days_in_month_def dd_def [symmetric]
      by (simp add: days_before_month_def)
  qed
  then show "1 \<le> date_from_time t"
    "date_from_time t \<le> days_in_month (year_from_time t) (month_from_time t)" by simp_all
qed

lemma month_cases:
  fixes m :: int
  assumes "0 \<le> m" "m \<le> 11"
  shows "m = 0 \<or> m = 1 \<or> m = 2 \<or> m = 3 \<or> m = 4 \<or> m = 5 \<or> m = 6 \<or> m = 7 \<or> m = 8
         \<or> m = 9 \<or> m = 10 \<or> m = 11"
  using assms by presburger

lemma day_of_days:
  fixes D tw :: int
  assumes "0 \<le> tw" "tw < ms_per_day"
  shows "day (D * ms_per_day + tw) = D" "time_within_day (D * ms_per_day + tw) = tw"
  using assms by (simp_all add: day_def time_within_day_def ms_per_day_def)

lemma days_before_month_bounds:
  assumes "0 \<le> m" "m \<le> 11" "1 \<le> d" "d \<le> days_in_month y m"
  shows "0 \<le> days_before_month (if days_in_year y = 366 then 1 else 0) m + d - 1"
    and "days_before_month (if days_in_year y = 366 then 1 else 0) m + d - 1 < days_in_year y"
proof -
  from days_in_year_cases [of y] month_cases [OF assms(1,2)] assms(3,4)
  have "0 \<le> days_before_month (if days_in_year y = 366 then 1 else 0) m + d - 1
      \<and> days_before_month (if days_in_year y = 366 then 1 else 0) m + d - 1 < days_in_year y"
    by (elim disjE) (simp_all add: days_before_month_def days_in_month_def)
  then show "0 \<le> days_before_month (if days_in_year y = 366 then 1 else 0) m + d - 1"
    and "days_before_month (if days_in_year y = 366 then 1 else 0) m + d - 1 < days_in_year y"
    by simp_all
qed

lemma month_of_day_within_year:
  fixes leap m d :: int
  assumes "leap = 0 \<or> leap = 1" "0 \<le> m" "m \<le> 11" "1 \<le> d"
    and "d \<le> (if m = 1 then 28 + leap else if m = 3 \<or> m = 5 \<or> m = 8 \<or> m = 10 then 30 else 31)"
  shows "(let dd = days_before_month leap m + d - 1 in
      if dd < 31 then 0 else if dd < 59 + leap then 1 else if dd < 90 + leap then 2
      else if dd < 120 + leap then 3 else if dd < 151 + leap then 4
      else if dd < 181 + leap then 5 else if dd < 212 + leap then 6
      else if dd < 243 + leap then 7 else if dd < 273 + leap then 8
      else if dd < 304 + leap then 9 else if dd < 334 + leap then 10 else 11) = m"
  using assms(1) month_cases [OF assms(2,3)] assms(4,5)
  by (elim disjE) (simp_all add: days_before_month_def Let_def)

lemma civil_time_fields:
  assumes m: "0 \<le> m" "m \<le> 11" and d: "1 \<le> d" "d \<le> days_in_month y m"
    and tw: "0 \<le> tw" "tw < ms_per_day"
  shows "year_from_time (civil_time y m d tw) = y"
    and "month_from_time (civil_time y m d tw) = m"
    and "date_from_time (civil_time y m d tw) = d"
    and "time_within_day (civil_time y m d tw) = tw"
proof -
  let ?t = "civil_time y m d tw"
  define leap :: int where "leap = (if days_in_year y = 366 then 1 else 0)"
  have dy: "day ?t = day_from_year y + days_before_month leap m + d - 1"
    unfolding civil_time_def leap_def by (rule day_of_days(1) [OF tw])
  note b = days_before_month_bounds [OF m d, folded leap_def]
  show y: "year_from_time ?t = y"
    by (rule year_from_time_unique) (use dy b day_from_year_step [of y] in simp_all)
  have leap: "in_leap_year ?t = leap" by (simp add: in_leap_year_def y leap_def)
  have dwy: "day_within_year ?t = days_before_month leap m + d - 1"
    by (simp add: day_within_year_def y dy)
  have l01: "leap = 0 \<or> leap = 1" by (simp add: leap_def)
  have dle: "d \<le> (if m = 1 then 28 + leap
      else if m = 3 \<or> m = 5 \<or> m = 8 \<or> m = 10 then 30 else 31)"
    using d(2) by (simp add: days_in_month_def leap_def split: if_splits)
  show mm: "month_from_time ?t = m"
    unfolding month_from_time_def leap dwy
    using month_of_day_within_year [OF l01 m d(1) dle] by (simp add: Let_def)
  show "date_from_time ?t = d"
    by (simp add: date_from_time_def mm leap dwy)
  show "time_within_day ?t = tw"
    unfolding civil_time_def by (rule day_of_days(2) [OF tw])
qed

section \<open>Properties of date and time formatting\<close>

subsection \<open>Rejected inputs\<close>

lemma dateObj_of_invalid:
  assumes "\<not> (typeof_number v \<and> unix)" "\<not> typeof_string v" "\<not> instanceof_Date v"
  shows "dateObj_of rt v unix = Inl (Error ''Invalid date input'')"
  using assms by (simp add: dateObj_of_def)

text \<open>
  Claim C6. An input that is neither a calendar-date value, nor a string, nor a number that
  comes with the unix flag makes both the date formatter and the time formatter raise the
  error \<^verbatim>\<open>Invalid date input\<close>; nothing is coerced.
\<close>

theorem unsupported_input_rejected:
  assumes "\<not> (typeof_number v \<and> unix)" and "\<not> typeof_string v" and "\<not> instanceof_Date v"
  shows "getFormattedDateString rt v options format unix = Inl (Error ''Invalid date input'')
         \<and> getFormattedTimeString rt v unix = Inl (Error ''Invalid date input'')"
  using dateObj_of_invalid [OF assms, of rt]
  by (simp add: getFormattedDateString_def getFormattedTimeString_def)

text \<open>A boolean is such an input.\<close>

theorem unsupported_input_rejected_witness:
  "getFormattedDateString sample_runtime (Boolean True) None ''YYYY-MM-DD'' False
     = Inl (Error ''Invalid date input'')
   \<and> getFormattedTimeString sample_runtime (Boolean True) False = Inl (Error ''Invalid date input'')"
  using unsupported_input_rejected [of "Boolean True" False sample_runtime None "''YYYY-MM-DD''"]
  by (simp add: typeof_number_def typeof_string_def instanceof_Date_def)

text \<open>
  Claim C3 as first stated, a number without the unix flag is read as milliseconds and
  formatted, fails: the millisecond timestamp of 15 May 2023 is rejected by both formatters.
\<close>

theorem number_without_unix_flag_counterexample:
  "getFormattedDateString sample_runtime (Number (Num 1684159800000)) None ''YYYY-MM-DD'' False
     = Inl (Error ''Invalid date input'')
   \<and> getFormattedTimeString sample_runtime (Number (Num 1684159800000)) False
     = Inl (Error ''Invalid date input'')"
  by (simp add: getFormattedDateString_def getFormattedTimeString_def input_defs)

text \<open>
  Claim C3, as amended. For every number, with the unix flag false (or left to its default)
  both formatters raise the error \<^verbatim>\<open>Invalid date input\<close>; a number is accepted only
  with the unix flag, and then it is read as seconds: the result is that of the date made
  from a thousand times the number.
\<close>

theorem number_without_unix_flag_rejected:
  "getFormattedDateString rt (Number x) options format False = Inl (Error ''Invalid date input'')
   \<and> getFormattedTimeString rt (Number x) False = Inl (Error ''Invalid date input'')
   \<and> getFormattedDateString rt (Number x) options format True
       = getFormattedDateString rt (DateObj (time_clip (times_1000 x))) options format True
   \<and> getFormattedTimeString rt (Number x) True
       = getFormattedTimeString rt (DateObj (time_clip (times_1000 x))) True"
  by (simp add: getFormattedDateString_def getFormattedTimeString_def input_defs)

subsection \<open>Strings that are not dates\<close>

lemma toLocaleDateString_invalid: "toLocaleDateString rt None opts = ''Invalid Date''"
  by (simp add: toLocaleDateString_def)

lemma replace_Invalid_Date:
  "replace_re (day_month_year_re 3) f ''Invalid Date'' = ''Invalid Date''"
  "replace_re (day_month_year_re 4) g ''Invalid Date'' = ''Invalid Date''"
  "replace_re slashes_re h ''Invalid Date'' = ''Invalid Date''"
  by (simp_all add: regex_eval)

lemma date_string_of_invalid:
  assumes "dateObj_of rt v unix = Inr None"
  shows "getFormattedDateString rt v options format unix = Inr ''Invalid Date''"
  using assms
  by (simp add: getFormattedDateString_def toLocaleDateString_invalid replace_Invalid_Date Let_def)

lemma time_string_of_invalid:
  assumes "dateObj_of rt v unix = Inr None"
  shows "getFormattedTimeString rt v unix = Inr ''NaN:NaN:NaN GMT''"
  using assms
  by (simp add: getFormattedTimeString_def getUTCHours_def getUTCMinutes_def getUTCSeconds_def
      pad_start_def)

text \<open>
  Claim C8, as amended. For a string that the runtime cannot parse as a date no error is
  raised: the date formatter returns \<^verbatim>\<open>Invalid Date\<close>, whatever the layout asked
  for, and the time formatter returns \<^verbatim>\<open>NaN:NaN:NaN GMT\<close>.
\<close>

theorem unparseable_string_formatted:
  assumes "date_parse rt s = NaN"
  shows "getFormattedDateString rt (String s) options format unix = Inr ''Invalid Date''
         \<and> getFormattedTimeString rt (String s) unix = Inr ''NaN:NaN:NaN GMT''"
proof -
  have "dateObj_of rt (String s) unix = Inr None"
    using assms by (simp add: input_defs time_clip_def)
  then show ?thesis
    by (simp add: date_string_of_invalid time_string_of_invalid)
qed

lemma iso_parse_garbage: "iso_parse ''garbage'' = NaN"
  by (simp add: iso_parse_def)

theorem unparseable_string_formatted_witness:
  "date_parse sample_runtime ''garbage'' = NaN
   \<and> getFormattedDateString sample_runtime (String ''garbage'') None ''DD MMM YYYY'' False
       = Inr ''Invalid Date''
   \<and> getFormattedTimeString sample_runtime (String ''garbage'') False = Inr ''NaN:NaN:NaN GMT''"
proof -
  have p: "date_parse sample_runtime ''garbage'' = NaN"
    by (simp add: sample_runtime_def iso_parse_garbage)
  from unparseable_string_formatted [OF p, of None "''DD MMM YYYY''" False] p
  show ?thesis by simp
qed

text \<open>
  Claim C8 as first stated, such a string is a terminal error, fails: both formatters
  return a string for \<^verbatim>\<open>garbage\<close>.
\<close>

theorem unparseable_string_counterexample:
  "getFormattedDateString sample_runtime (String ''garbage'') None ''YYYY-MM-DD'' False
     = Inr ''Invalid Date''
   \<and> getFormattedTimeString sample_runtime (String ''garbage'') False = Inr ''NaN:NaN:NaN GMT''"
proof -
  have "dateObj_of sample_runtime (String ''garbage'') False = Inr None"
    by (simp add: input_defs time_clip_def sample_runtime_def iso_parse_garbage)
  then show ?thesis
    by (simp add: date_string_of_invalid time_string_of_invalid)
qed

subsection \<open>The time of day\<close>

lemma digit_char_0: "digit_char 0 = CHR ''0''"
  by (simp add: digit_char_def)

lemma two_digit_pad:
  assumes "0 \<le> n" "n < 100"
  shows "pad_start 2 CHR ''0'' (to_string (Num n)) = two_digits n"
proof (cases "n < 10")
  case True
  with assms have "decimal (nat n) = [digit_char (nat n)]" by simp
  moreover from True assms have "nat n div 10 = 0" "nat n mod 10 = nat n" by simp_all
  ultimately show ?thesis using assms
    by (simp add: pad_start_def two_digits_def digit_char_0)
next
  case False
  with assms have d: "nat n div 10 < 10" "\<not> nat n < 10" by simp_all
  have "decimal (nat n) = decimal (nat n div 10) @ [digit_char (nat n mod 10)]"
    using d(2) by (subst decimal.simps) simp
  also have "decimal (nat n div 10) = [digit_char (nat n div 10)]"
    using d(1) by (subst decimal.simps) simp
  finally show ?thesis using assms
    by (simp add: pad_start_def two_digits_def)
qed

lemma time_string_of_valid:
  assumes "dateObj_of rt v unix = Inr (Some t)"
  shows "getFormattedTimeString rt v unix = Inr (clock_string t)"
proof -
  have h: "pad_start 2 CHR ''0'' (to_string (Num (hour_from_time t))) = two_digits (hour_from_time t)"
    by (rule two_digit_pad) (simp_all add: hour_from_time_def)
  have m: "pad_start 2 CHR ''0'' (to_string (Num (min_from_time t))) = two_digits (min_from_time t)"
    by (rule two_digit_pad) (simp_all add: min_from_time_def)
  have s: "pad_start 2 CHR ''0'' (to_string (Num (sec_from_time t))) = two_digits (sec_from_time t)"
    by (rule two_digit_pad) (simp_all add: sec_from_time_def)
  show ?thesis
    using assms
    by (simp add: getFormattedTimeString_def getUTCHours_def getUTCMinutes_def getUTCSeconds_def
        h [unfolded hour_from_time_def] m [unfolded min_from_time_def]
        s [unfolded sec_from_time_def]
        clock_string_def hour_from_time_def min_from_time_def sec_from_time_def
        del: to_string.simps)
qed

text \<open>
  Claim C9, as amended. For a valid calendar-date value, a string that parses to a time
  value in range and a number of seconds in range with the unix flag, the time formatter
  returns \<^verbatim>\<open>HH:mm:ss GMT\<close> with the two-digit UTC hour, minute and second of the
  instant. The unix-seconds input 1684159800 gives \<^verbatim>\<open>14:10:00 GMT\<close>; it is
  1684161000 that gives \<^verbatim>\<open>14:30:00 GMT\<close>.
\<close>

theorem time_string_is_utc_clock:
  "getFormattedTimeString rt (DateObj (Some t)) unix = Inr (clock_string t)
   \<and> (date_parse rt s = Num t \<and> \<bar>t\<bar> \<le> 8640000000000000 \<longrightarrow>
        getFormattedTimeString rt (String s) unix = Inr (clock_string t))
   \<and> (\<bar>n * 1000\<bar> \<le> 8640000000000000 \<longrightarrow>
        getFormattedTimeString rt (Number (Num n)) True = Inr (clock_string (n * 1000)))
   \<and> getFormattedTimeString rt (Number (Num 1684159800)) True = Inr ''14:10:00 GMT''
   \<and> getFormattedTimeString rt (Number (Num 1684161000)) True = Inr ''14:30:00 GMT''"
proof (intro conjI impI)
  show "getFormattedTimeString rt (DateObj (Some t)) unix = Inr (clock_string t)"
    by (rule time_string_of_valid) (simp add: input_defs)
next
  assume "date_parse rt s = Num t \<and> \<bar>t\<bar> \<le> 8640000000000000"
  then show "getFormattedTimeString rt (String s) unix = Inr (clock_string t)"
    by (intro time_string_of_valid) (simp add: input_defs time_clip_def)
next
  assume "\<bar>n * 1000\<bar> \<le> 8640000000000000"
  then show "getFormattedTimeString rt (Number (Num n)) True = Inr (clock_string (n * 1000))"
    by (intro time_string_of_valid) (simp add: input_defs time_clip_def)
next
  have "getFormattedTimeString rt (Number (Num 1684159800)) True
          = Inr (clock_string (1684159800 * 1000))"
    by (intro time_string_of_valid) (simp add: input_defs time_clip_def)
  then show "getFormattedTimeString rt (Number (Num 1684159800)) True = Inr ''14:10:00 GMT''"
    by (simp add: clock_string_def two_digits_def digit_char_def)
next
  have "getFormattedTimeString rt (Number (Num 1684161000)) True
          = Inr (clock_string (1684161000 * 1000))"
    by (intro time_string_of_valid) (simp add: input_defs time_clip_def)
  then show "getFormattedTimeString rt (Number (Num 1684161000)) True = Inr ''14:30:00 GMT''"
    by (simp add: clock_string_def two_digits_def digit_char_def)
qed

lemma parse_half_past_two: "iso_parse ''2023-05-15T14:30:00Z'' = Num 1684161000000"
  by (simp add: iso_eval)

theorem time_string_is_utc_clock_witness:
  "date_parse sample_runtime ''2023-05-15T14:30:00Z'' = Num 1684161000000
   \<and> \<bar>1684161000000 :: int\<bar> \<le> 8640000000000000
   \<and> getFormattedTimeString sample_runtime (String ''2023-05-15T14:30:00Z'') False
       = Inr ''14:30:00 GMT''
   \<and> \<bar>1684159800 * 1000 :: int\<bar> \<le> 8640000000000000
   \<and> getFormattedTimeString sample_runtime (Number (Num 1684159800)) True = Inr ''14:10:00 GMT''"
proof -
  have p: "date_parse sample_runtime ''2023-05-15T14:30:00Z'' = Num 1684161000000"
    by (simp add: sample_runtime_def parse_half_past_two)
  have c: "clock_string 1684161000000 = ''14:30:00 GMT''"
    by (simp add: clock_string_def two_digits_def digit_char_def)
  have c': "clock_string 1684159800000 = ''14:10:00 GMT''"
    by (simp add: clock_string_def two_digits_def digit_char_def)
  from time_string_is_utc_clock
         [of sample_runtime 1684161000000 False "''2023-05-15T14:30:00Z''" 1684159800] p
  show ?thesis by (simp add: c c')
qed

text \<open>
  The example of claim C9 as first stated fails: 1684159800 seconds after the epoch it is ten
  past two, not half past two.
\<close>

theorem time_string_example_counterexample:
  "getFormattedTimeString sample_runtime (Number (Num 1684159800)) True = Inr ''14:10:00 GMT''
   \<and> getFormattedTimeString sample_runtime (Number (Num 1684159800)) True \<noteq> Inr ''14:30:00 GMT''"
proof -
  have "getFormattedTimeString sample_runtime (Number (Num 1684159800)) True
          = Inr (clock_string (1684159800 * 1000))"
    by (intro time_string_of_valid) (simp add: input_defs time_clip_def)
  then show ?thesis
    by (simp add: clock_string_def two_digits_def digit_char_def)
qed

subsection \<open>The month-first layout\<close>

lemma parse_15_Sep: "iso_parse ''2023-09-15'' = Num 1694736000000"
  by (simp add: iso_eval)

lemma parse_15_May: "iso_parse ''2023-05-15'' = Num 1684108800000"
  by (simp add: iso_eval)

lemma fields_15_Sep:
  "year_from_time 1694736000000 = 2023" "month_from_time 1694736000000 = 8"
  "date_from_time 1694736000000 = 15"
  by (simp_all add: calendar_eval)

lemma fields_15_May:
  "year_from_time 1684108800000 = 2023" "month_from_time 1684108800000 = 4"
  "date_from_time 1684108800000 = 15"
  by (simp_all add: calendar_eval)

lemma short_15_Sep:
  "toLocaleDateString sample_runtime (Some 1694736000000)
     \<lparr>day_opt = Some ''2-digit'', month_opt = Some ''short'', year_opt = Some ''numeric''\<rparr>
   = ''15 Sept 2023''"
  by (simp add: toLocaleDateString_def sample_runtime_def local_time_def fields_15_Sep
      two_digit_def pad_start_def year_of_era_def digit_char_def en_GB_months_def)

lemma short_15_May:
  "toLocaleDateString sample_runtime (Some 1684108800000)
     \<lparr>day_opt = Some ''2-digit'', month_opt = Some ''short'', year_opt = Some ''numeric''\<rparr>
   = ''15 May 2023''"
  by (simp add: toLocaleDateString_def sample_runtime_def local_time_def fields_15_May
      two_digit_def pad_start_def year_of_era_def digit_char_def en_GB_months_def)

lemma dateObj_15_Sep:
  "dateObj_of sample_runtime (String ''2023-09-15'') False = Inr (Some 1694736000000)"
  by (simp add: input_defs sample_runtime_def parse_15_Sep time_clip_def)

lemma dateObj_15_May:
  "dateObj_of sample_runtime (String ''2023-05-15'') False = Inr (Some 1684108800000)"
  by (simp add: input_defs sample_runtime_def parse_15_May time_clip_def)

text \<open>
  Claim C1 says that the layout \<^verbatim>\<open>MMM DD YYYY\<close> always gives month, day and year
  with a month of three letters. The code does not do so where the locale abbreviates the
  month to four letters: its pattern for this layout asks for exactly three, does not
  match, and the date comes back day first and with the four letters. The layout
  \<^verbatim>\<open>DD MMM YYYY\<close> of the same function does cut the month to three letters, and
  a month of three letters is reordered as claimed.
\<close>

theorem month_first_September_not_reordered:
  "getFormattedDateString sample_runtime (String ''2023-09-15'') None ''MMM DD YYYY'' False
     = Inr ''15 Sept 2023''
   \<and> getFormattedDateString sample_runtime (String ''2023-09-15'') None ''DD MMM YYYY'' False
     = Inr ''15 Sep 2023''
   \<and> getFormattedDateString sample_runtime (String ''2023-05-15'') None ''MMM DD YYYY'' False
     = Inr ''May 15 2023''"
proof (intro conjI)
  show "getFormattedDateString sample_runtime (String ''2023-09-15'') None ''MMM DD YYYY'' False
     = Inr ''15 Sept 2023''"
    by (simp add: getFormattedDateString_def dateObj_15_Sep default_options_def short_15_Sep
        regex_eval)
  show "getFormattedDateString sample_runtime (String ''2023-09-15'') None ''DD MMM YYYY'' False
     = Inr ''15 Sep 2023''"
    by (simp add: getFormattedDateString_def dateObj_15_Sep default_options_def short_15_Sep
        regex_eval)
  show "getFormattedDateString sample_runtime (String ''2023-05-15'') None ''MMM DD YYYY'' False
     = Inr ''May 15 2023''"
    by (simp add: getFormattedDateString_def dateObj_15_May default_options_def short_15_May
        regex_eval)
qed

section \<open>Properties of date adjustment\<close>

lemma clip_utc_Num: "clip_utc rt (Num t) = date_at (utc rt t)"
  by (simp add: clip_utc_def time_clip_def date_at_def)

lemma time_split: "day t * ms_per_day + time_within_day t = t"
  by (simp add: day_def time_within_day_def)

lemma time_within_day_bounds: "0 \<le> time_within_day t" "time_within_day t < ms_per_day"
  by (simp_all add: time_within_day_def ms_per_day_def)

lemma day_as_fields:
  "day t = day_from_year (year_from_time t)
     + days_before_month (in_leap_year t) (month_from_time t) + date_from_time t - 1"
  by (simp add: date_from_time_def day_within_year_def)

lemma make_day_fields:
  assumes "0 \<le> m" "m \<le> 11"
  shows "make_day (Num y) (Num m) (Num d)
     = Num (day_from_year y + days_before_month (if days_in_year y = 366 then 1 else 0) m + d - 1)"
proof -
  from assms have "m div 12 = 0" "m mod 12 = m" by simp_all
  then show ?thesis by (simp add: make_day_def Let_def)
qed

lemma setDate_shift:
  "setDate rt (Some tv) (Num k)
     = date_at (utc rt (local_time rt tv + (k - date_from_time (local_time rt tv)) * ms_per_day))"
proof -
  define t where "t = local_time rt tv"
  have "make_day (Num (year_from_time t)) (Num (month_from_time t)) (Num k)
      = Num (day t + (k - date_from_time t))"
    unfolding make_day_fields [OF month_from_time_range]
    by (simp add: day_as_fields [of t] in_leap_year_def)
  then have "make_date (make_day (Num (year_from_time t)) (Num (month_from_time t)) (Num k))
      (time_within_day t) = Num (day t * ms_per_day + time_within_day t
         + (k - date_from_time t) * ms_per_day)"
    by (simp add: make_date_def algebra_simps)
  then show ?thesis
    unfolding time_split by (simp add: setDate_def Let_def t_def clip_utc_Num)
qed

lemma setFullYear_civil:
  "setFullYear rt (Some tv) (Num y)
     = date_at (utc rt (civil_time y (month_from_time (local_time rt tv))
         (date_from_time (local_time rt tv)) (time_within_day (local_time rt tv))))"
  unfolding setFullYear_def Let_def
  by (simp add: make_day_fields [OF month_from_time_range] make_date_def civil_time_def
      clip_utc_Num)

text \<open>The 29th of February of a year that has none is the 1st of March.\<close>

lemma civil_time_29_Feb:
  assumes "days_in_year y = 365"
  shows "civil_time y 1 29 tw = civil_time y 2 1 tw"
  using assms by (simp add: civil_time_def days_before_month_def)

lemma days_in_month_other_year:
  assumes "d \<le> days_in_month y m" "\<not> (m = 1 \<and> d = 29 \<and> days_in_year y' = 365)"
  shows "d \<le> days_in_month y' m"
  using assms days_in_year_cases [of y'] days_in_year_cases [of y]
  by (auto simp: days_in_month_def split: if_splits)

lemma shifted_year_fields:
  fixes t y' :: int
  defines "t' \<equiv> civil_time y' (month_from_time t) (date_from_time t) (time_within_day t)"
  shows "year_from_time t' = y'" and "time_within_day t' = time_within_day t"
    and "(month_from_time t', date_from_time t') =
      (if month_from_time t = 1 \<and> date_from_time t = 29 \<and> days_in_year y' = 365 then (2, 1)
       else (month_from_time t, date_from_time t))"
proof -
  note tw = time_within_day_bounds [of t]
  have "year_from_time t' = y' \<and> time_within_day t' = time_within_day t
    \<and> (month_from_time t', date_from_time t') =
      (if month_from_time t = 1 \<and> date_from_time t = 29 \<and> days_in_year y' = 365 then (2, 1)
       else (month_from_time t, date_from_time t))"
  proof (cases "month_from_time t = 1 \<and> date_from_time t = 29 \<and> days_in_year y' = 365")
    case True
    then have eq: "t' = civil_time y' 2 1 (time_within_day t)"
      by (simp add: t'_def civil_time_29_Feb)
    have "(1::int) \<le> days_in_month y' 2" by (simp add: days_in_month_def)
    from civil_time_fields [OF _ _ _ this tw] True show ?thesis
      unfolding eq by simp
  next
    case False
    from days_in_month_other_year [OF date_from_time_range(2) False]
    have "date_from_time t \<le> days_in_month y' (month_from_time t)" .
    from civil_time_fields [OF month_from_time_range date_from_time_range(1) this tw] False
    show ?thesis unfolding t'_def by simp
  qed
  then show "year_from_time t' = y'" and "time_within_day t' = time_within_day t"
    and "(month_from_time t', date_from_time t') =
      (if month_from_time t = 1 \<and> date_from_time t = 29 \<and> days_in_year y' = 365 then (2, 1)
       else (month_from_time t, date_from_time t))"
    by simp_all
qed

lemma years_later_fields:
  "year_from_time (years_later t k) = year_from_time t + k"
  "time_within_day (years_later t k) = time_within_day t"
  "(month_from_time (years_later t k), date_from_time (years_later t k)) =
     (if month_from_time t = 1 \<and> date_from_time t = 29 \<and> days_in_year (year_from_time t + k) = 365
      then (2, 1) else (month_from_time t, date_from_time t))"
  unfolding years_later_def by (rule shifted_year_fields)+

text \<open>
  Claim C7, as amended. For every integer amount, with the unit \<^verbatim>\<open>days\<close> the result
  is the instant that many days after (or, subtracting, before) the current local time, and
  with the unit \<^verbatim>\<open>years\<close> it is the instant of the local time with the year
  shifted by the amount and the same month, day and time of day (the 1st of March for a
  29th of February shifted into a year without one), provided that the instant is within
  \<open>8.64 \<times> 10\<^sup>1\<^sup>5\<close> milliseconds of the epoch; beyond that range the result is the
  invalid date. Any other unit returns the current date unshifted.
\<close>

theorem getAdjustedDate_shifts:
  "getAdjustedDate rt (Num n) ''days'' operation
     = date_at (utc rt (local_now rt + signed_amount operation n * 86400000))
   \<and> getAdjustedDate rt (Num n) ''years'' operation
     = date_at (utc rt (years_later (local_now rt) (signed_amount operation n)))
   \<and> year_from_time (years_later t k) = year_from_time t + k
   \<and> time_within_day (years_later t k) = time_within_day t
   \<and> (month_from_time (years_later t k), date_from_time (years_later t k)) =
       (if month_from_time t = 1 \<and> date_from_time t = 29
           \<and> days_in_year (year_from_time t + k) = 365
        then (2, 1) else (month_from_time t, date_from_time t))
   \<and> (type \<noteq> ''days'' \<and> type \<noteq> ''years'' \<longrightarrow>
        getAdjustedDate rt amount type operation = Some (now rt))"
proof (intro conjI impI)
  show "getAdjustedDate rt (Num n) ''days'' operation
     = date_at (utc rt (local_now rt + signed_amount operation n * 86400000))"
    by (simp add: getAdjustedDate_def getDate_def setDate_shift signed_amount_def ms_per_day_def
        local_now_def Let_def)
  show "getAdjustedDate rt (Num n) ''years'' operation
     = date_at (utc rt (years_later (local_now rt) (signed_amount operation n)))"
    by (simp add: getAdjustedDate_def getFullYear_def setFullYear_civil signed_amount_def
        local_now_def years_later_def Let_def)
  show "year_from_time (years_later t k) = year_from_time t + k"
    by (rule years_later_fields)
  show "time_within_day (years_later t k) = time_within_day t"
    by (rule years_later_fields)
  show "(month_from_time (years_later t k), date_from_time (years_later t k)) =
       (if month_from_time t = 1 \<and> date_from_time t = 29
           \<and> days_in_year (year_from_time t + k) = 365
        then (2, 1) else (month_from_time t, date_from_time t))"
    by (rule years_later_fields)
next
  assume "type \<noteq> ''days'' \<and> type \<noteq> ''years''"
  then show "getAdjustedDate rt amount type operation = Some (now rt)"
    by (simp add: getAdjustedDate_def Let_def)
qed

lemma sample_now_fields:
  "year_from_time 1684159800000 = 2023" "month_from_time 1684159800000 = 4"
  "date_from_time 1684159800000 = 15" "time_within_day 1684159800000 = 51000000"
  by (simp_all add: calendar_eval time_within_day_def)

lemma sample_local_now: "local_now sample_runtime = 1684159800000"
  by (simp add: local_now_def local_time_def sample_runtime_def)

text \<open>
  On 15 May 2023 at 14:10 UTC: five days later is 20 May 2023, two years earlier is
  15 May 2021, both at 14:10, and five \<^verbatim>\<open>weeks\<close> later is the same instant.
\<close>

theorem getAdjustedDate_shifts_witness:
  "getAdjustedDate sample_runtime (Num 5) ''days'' ''add'' = Some 1684591800000
   \<and> getAdjustedDate sample_runtime (Num 2) ''years'' ''subtract'' = Some 1621087800000
   \<and> ''weeks'' \<noteq> ''days'' \<and> ''weeks'' \<noteq> ''years''
   \<and> getAdjustedDate sample_runtime (Num 5) ''weeks'' ''add'' = Some 1684159800000"
proof -
  have y: "years_later 1684159800000 (- 2) = 1621087800000"
    by (simp add: years_later_def sample_now_fields civil_time_def day_from_year_def
        days_in_year_def days_before_month_def ms_per_day_def)
  have u: "utc sample_runtime t = t" for t
    by (simp add: utc_def sample_runtime_def)
  have n: "now sample_runtime = 1684159800000"
    by (simp add: sample_runtime_def)
  from getAdjustedDate_shifts [of sample_runtime 5 "''add''" 0 0 "''weeks''" "Num 5"]
    getAdjustedDate_shifts [of sample_runtime 2 "''subtract''" 0 0 "''weeks''" "Num 5"]
  show ?thesis
    by (simp add: sample_local_now signed_amount_def y u n date_at_def)
qed

text \<open>
  Claim C7 as first stated, for every integer amount, fails for an amount that leaves the
  range of time values: a thousand million days later there is no date.
\<close>

theorem getAdjustedDate_range_counterexample:
  "getAdjustedDate sample_runtime (Num 1000000000) ''days'' ''add'' = None"
  by (simp add: getAdjustedDate_def getDate_def setDate_shift Let_def local_time_def utc_def
      sample_runtime_def sample_now_fields date_at_def ms_per_day_def)

section \<open>Properties of money formatting\<close>

lemma fractionDigits_cases:
  "fractionDigits precision options =
     (case Option.bind options decimalPlaces of
        Some d \<Rightarrow> if truthy d then Some d
                  else precision (case Option.bind options currency of None \<Rightarrow> ''USD'' | Some c \<Rightarrow> c)
      | None \<Rightarrow> precision (case Option.bind options currency of None \<Rightarrow> ''USD'' | Some c \<Rightarrow> c))"
  by (cases options) (simp_all add: fractionDigits_def or_else_def split: option.splits)

text \<open>
  Claim C2 says that a supplied \<open>decimalPlaces\<close> wins, 0 included. The code takes 0 for
  absent: with the precision 2 registered for USD, asking for 0 digits gives 2, and the
  amount is formatted exactly as without options.
\<close>

theorem decimalPlaces_zero_ignored:
  "fractionDigits [''USD'' \<mapsto> Num 2]
     (Some \<lparr>currency = None, decimalPlaces = Some (Num 0), locale_tag = None\<rparr>) = Some (Num 2)
   \<and> formatMoney nrt [''USD'' \<mapsto> Num 2] x
       (Some \<lparr>currency = None, decimalPlaces = Some (Num 0), locale_tag = None\<rparr>)
     = formatMoney nrt [''USD'' \<mapsto> Num 2] x None"
  by (simp add: formatMoney_def fractionDigits_def or_else_def)



end
